theory Spec2Isabelle
  imports Complex_Main "HOL-Library.Monad_Syntax"
begin

section \<open>Data model\<close>

text \<open>
  Coordinates and settings are exact reals here, so the statements below are about the
  algorithms in exact arithmetic. The documents' pseudo-code is Python, which computes
  in binary64; the section on the row coordinate in floating point makes the difference
  explicit for the rows of the zigzag planner. Several worked inputs are made of
  binary fractions, on which the two agree.
\<close>

type_synonym point = "real \<times> real"

text \<open>\<^verbatim>\<open>Rectangle(x, y, width, height)\<close>; raw obstacles have the same four fields.\<close>

record rectangle =
  rect_x :: real
  rect_y :: real
  rect_width :: real
  rect_height :: real

record wall =
  wall_width :: real
  wall_height :: real

datatype pattern = Zigzag | Spiral

text \<open>\<^verbatim>\<open>PlannerSettings\<close> of \<^verbatim>\<open>frontend/src/lib/types.ts\<close>.\<close>

record settings =
  s_pattern :: pattern
  s_spacing :: real
  s_speed :: real
  s_clearance :: real
  s_resolution :: real

record trajectory =
  traj_points :: "point list"
  length_m :: real
  duration_s :: real
  point_count :: nat

text \<open>
  Every failure that the documents give as planner code is a Python \<^verbatim>\<open>ValueError\<close>;
  the raise sites differ in their message only, so the message is the payload. Division
  by a zero speed is the interpreter's own \<^verbatim>\<open>ZeroDivisionError\<close>.

  Modelled from the spec: \<open>ConfigurationError\<close> is section 7's error for the checks of
  the input that are not among the planner's pseudo-code: the wall's dimensions, the
  containment of each obstacle in the wall and the ranges of the settings.
\<close>

datatype message =
    Obstacle_exceeds_wall_dimensions
  | No_valid_coverage_path
  | Trajectory_too_large nat
  | Path_point_inside_obstacle point
  | Path_segment_crosses_obstacle nat

datatype error = ConfigurationError | ValueError message | ZeroDivisionError

section \<open>Geometry primitives\<close>

text \<open>
  Modelled from the spec: the body of \<^verbatim>\<open>Rectangle.contains_point\<close> is not in the
  documents; section 4.1 and Theorem 1.1 of the technical report give the closed test.
\<close>

definition contains_point :: "rectangle \<Rightarrow> real \<Rightarrow> real \<Rightarrow> bool" where
  "contains_point r x y \<longleftrightarrow>
     rect_x r \<le> x \<and> x \<le> rect_x r + rect_width r \<and>
     rect_y r \<le> y \<and> y \<le> rect_y r + rect_height r"

text \<open>
  Modelled from the spec: \<^verbatim>\<open>intersects_horizontal_segment\<close>,
  \<^verbatim>\<open>intersects_vertical_segment\<close> and \<^verbatim>\<open>line_segment_intersects_rectangle\<close> are
  called by \<^verbatim>\<open>segment_crosses_obstacle\<close> but not defined; Theorems 2.1 to 2.3 of the
  technical report state them, the last one by sampling
  \<^verbatim>\<open>n = max(10, floor(distance / resolution))\<close> points of the parametric segment.
\<close>

definition intersects_horizontal_segment :: "rectangle \<Rightarrow> real \<Rightarrow> real \<Rightarrow> real \<Rightarrow> bool" where
  "intersects_horizontal_segment r x1 x2 y \<longleftrightarrow>
     rect_y r \<le> y \<and> y \<le> rect_y r + rect_height r \<and>
     min x1 x2 < rect_x r + rect_width r \<and> max x1 x2 > rect_x r"

definition intersects_vertical_segment :: "rectangle \<Rightarrow> real \<Rightarrow> real \<Rightarrow> real \<Rightarrow> bool" where
  "intersects_vertical_segment r x y1 y2 \<longleftrightarrow>
     rect_x r \<le> x \<and> x \<le> rect_x r + rect_width r \<and>
     min y1 y2 < rect_y r + rect_height r \<and> max y1 y2 > rect_y r"

definition euclidean_distance :: "point \<Rightarrow> point \<Rightarrow> real" where
  "euclidean_distance p1 p2 = sqrt ((fst p2 - fst p1)\<^sup>2 + (snd p2 - snd p1)\<^sup>2)"

definition line_segment_intersects_rectangle ::
  "real \<Rightarrow> real \<Rightarrow> real \<Rightarrow> real \<Rightarrow> real \<Rightarrow> rectangle \<Rightarrow> bool" where
  "line_segment_intersects_rectangle resolution x1 y1 x2 y2 obs =
     (let n = max 10 (nat \<lfloor>euclidean_distance (x1, y1) (x2, y2) / resolution\<rfloor>)
      in list_ex (\<lambda>i. contains_point obs (x1 + (real i / real n) * (x2 - x1))
                                          (y1 + (real i / real n) * (y2 - y1)))
           [0..<Suc n])"

section \<open>Obstacle handling\<close>

text \<open>\<^verbatim>\<open>expand_obstacle\<close> of the design document: the rectangle grown by the clearance.\<close>

definition expand_obstacle :: "rectangle \<Rightarrow> real \<Rightarrow> rectangle" where
  "expand_obstacle obstacle clearance =
     \<lparr>rect_x = rect_x obstacle - clearance,
      rect_y = rect_y obstacle - clearance,
      rect_width = rect_width obstacle + 2 * clearance,
      rect_height = rect_height obstacle + 2 * clearance\<rparr>"

text \<open>\<^verbatim>\<open>expand_obstacles\<close> of the README: the same rectangle for each obstacle, in order.\<close>

definition expand_obstacles :: "rectangle list \<Rightarrow> real \<Rightarrow> rectangle list" where
  "expand_obstacles obstacles clearance =
     map (\<lambda>obs. \<lparr>rect_x = rect_x obs - clearance,
                 rect_y = rect_y obs - clearance,
                 rect_width = rect_width obs + 2 * clearance,
                 rect_height = rect_height obs + 2 * clearance\<rparr>) obstacles"

text \<open>
  The rectangle that the technical report calls the clamped expansion,
  \<^verbatim>\<open>[max(0, x-c), min(W, x+w+c)] x [max(0, y-c), min(H, y+h+c)]\<close>; no pseudo-code
  computes it, it is here to be compared with \<^const>\<open>expand_obstacle\<close>.
\<close>

definition clamped_expansion :: "wall \<Rightarrow> rectangle \<Rightarrow> real \<Rightarrow> rectangle" where
  "clamped_expansion w obstacle clearance =
     (let x0 = max 0 (rect_x obstacle - clearance);
          x1 = min (wall_width w) (rect_x obstacle + rect_width obstacle + clearance);
          y0 = max 0 (rect_y obstacle - clearance);
          y1 = min (wall_height w) (rect_y obstacle + rect_height obstacle + clearance)
      in \<lparr>rect_x = x0, rect_y = y0, rect_width = x1 - x0, rect_height = y1 - y0\<rparr>)"

text \<open>\<^verbatim>\<open>is_valid\<close> (design document) and \<^verbatim>\<open>is_point_valid\<close> (README) are the same test.\<close>

definition is_valid :: "wall \<Rightarrow> rectangle list \<Rightarrow> real \<Rightarrow> real \<Rightarrow> bool" where
  "is_valid w expanded_obstacles x y =
     (if \<not> (0 \<le> x \<and> x \<le> wall_width w \<and> 0 \<le> y \<and> y \<le> wall_height w) then False
      else if list_ex (\<lambda>obstacle. contains_point obstacle x y) expanded_obstacles then False
      else True)"

text \<open>
  \<^verbatim>\<open>segment_crosses_obstacle\<close> of the README. The value of \<^verbatim>\<open>tolerance\<close> is not
  given, so it is a parameter.
\<close>

definition segment_crosses_obstacle ::
  "real \<Rightarrow> real \<Rightarrow> rectangle list \<Rightarrow> real \<Rightarrow> real \<Rightarrow> real \<Rightarrow> real \<Rightarrow> bool" where
  "segment_crosses_obstacle tolerance resolution expanded_obstacles x1 y1 x2 y2 =
     list_ex (\<lambda>obs.
        if \<bar>y2 - y1\<bar> < tolerance then intersects_horizontal_segment obs x1 x2 y1
        else if \<bar>x2 - x1\<bar> < tolerance then intersects_vertical_segment obs x1 y1 y2
        else line_segment_intersects_rectangle resolution x1 y1 x2 y2 obs)
       expanded_obstacles"

subsection \<open>Merging overlapping obstacles\<close>

text \<open>
  Modelled from the spec: \<^verbatim>\<open>find_overlapping\<close> and \<^verbatim>\<open>union\<close> are called by
  \<^verbatim>\<open>merge_obstacles\<close> but not defined. Section 4.2 merges two rectangles whose
  axis-aligned boxes intersect into the bounding box of their union;
  \<^verbatim>\<open>find_overlapping\<close> returns the first rectangle of the list that intersects.
\<close>

definition overlaps :: "rectangle \<Rightarrow> rectangle \<Rightarrow> bool" where
  "overlaps a b \<longleftrightarrow>
     rect_x a \<le> rect_x b + rect_width b \<and> rect_x b \<le> rect_x a + rect_width a \<and>
     rect_y a \<le> rect_y b + rect_height b \<and> rect_y b \<le> rect_y a + rect_height a"

definition find_overlapping :: "rectangle \<Rightarrow> rectangle list \<Rightarrow> rectangle option" where
  "find_overlapping obs merged = find (overlaps obs) merged"

definition union_rect :: "rectangle \<Rightarrow> rectangle \<Rightarrow> rectangle" where
  "union_rect a b =
     (let x0 = min (rect_x a) (rect_x b);
          y0 = min (rect_y a) (rect_y b);
          x1 = max (rect_x a + rect_width a) (rect_x b + rect_width b);
          y1 = max (rect_y a + rect_height a) (rect_y b + rect_height b)
      in \<lparr>rect_x = x0, rect_y = y0, rect_width = x1 - x0, rect_height = y1 - y0\<rparr>)"

text \<open>\<^verbatim>\<open>merge_obstacles\<close> of the design document: one pass over the input.\<close>

fun merge_loop :: "rectangle list \<Rightarrow> rectangle list \<Rightarrow> rectangle list" where
  "merge_loop [] merged = merged"
| "merge_loop (obs # rest) merged =
     (case find_overlapping obs merged of
        Some overlapping \<Rightarrow> merge_loop rest (remove1 overlapping merged @ [union_rect obs overlapping])
      | None \<Rightarrow> merge_loop rest (merged @ [obs]))"

definition merge_obstacles :: "rectangle list \<Rightarrow> rectangle list" where
  "merge_obstacles obstacles = merge_loop obstacles []"

section \<open>Free segments of a row\<close>

text \<open>The inner loop of \<^verbatim>\<open>get_free_segments_in_row\<close>: one obstacle against all segments.\<close>

fun split_segments :: "rectangle \<Rightarrow> (real \<times> real) list \<Rightarrow> (real \<times> real) list" where
  "split_segments obs_expanded [] = []"
| "split_segments obs_expanded ((start, end) # segments) =
     (if rect_x obs_expanded > end \<or> rect_x obs_expanded + rect_width obs_expanded < start
      then [(start, end)]
      else (if start < rect_x obs_expanded then [(start, rect_x obs_expanded)] else []) @
           (if rect_x obs_expanded + rect_width obs_expanded < end
            then [(rect_x obs_expanded + rect_width obs_expanded, end)] else []))
     @ split_segments obs_expanded segments"

fun free_segments_loop ::
  "real \<Rightarrow> real \<Rightarrow> rectangle list \<Rightarrow> (real \<times> real) list \<Rightarrow> (real \<times> real) list" where
  "free_segments_loop y clearance [] segments = segments"
| "free_segments_loop y clearance (obstacle # rest) segments =
     (let obs_expanded = expand_obstacle obstacle clearance
      in if rect_y obs_expanded \<le> y \<and> y \<le> rect_y obs_expanded + rect_height obs_expanded
         then free_segments_loop y clearance rest (split_segments obs_expanded segments)
         else free_segments_loop y clearance rest segments)"

definition get_free_segments_in_row ::
  "wall \<Rightarrow> real \<Rightarrow> rectangle list \<Rightarrow> real \<Rightarrow> (real \<times> real) list" where
  "get_free_segments_in_row w y obstacles clearance =
     free_segments_loop y clearance obstacles [(0, wall_width w)]"

section \<open>Stepping loops\<close>

text \<open>
  The planners step a coordinate by the resolution in loops of three shapes:
  \<^verbatim>\<open>while v <= bound: body(v); v += step\<close>,
  \<^verbatim>\<open>while v >= bound: body(v); v -= step\<close> and
  \<^verbatim>\<open>while v > bound: body(v); v -= step\<close>.
  With a step that is not positive they never leave the loop, so each is a partial
  function: a loop that does not return has the value \<open>None\<close>.
\<close>

partial_function (option) while_le ::
  "(real \<Rightarrow> point list \<Rightarrow> point list) \<Rightarrow> real \<Rightarrow> real \<Rightarrow> real \<Rightarrow> point list
   \<Rightarrow> point list option" where
  "while_le body step bound v points =
     (if v \<le> bound then while_le body step bound (v + step) (body v points)
      else Some points)"

partial_function (option) while_ge ::
  "(real \<Rightarrow> point list \<Rightarrow> point list) \<Rightarrow> real \<Rightarrow> real \<Rightarrow> real \<Rightarrow> point list
   \<Rightarrow> point list option" where
  "while_ge body step bound v points =
     (if v \<ge> bound then while_ge body step bound (v - step) (body v points)
      else Some points)"

partial_function (option) while_gt ::
  "(real \<Rightarrow> point list \<Rightarrow> point list) \<Rightarrow> real \<Rightarrow> real \<Rightarrow> real \<Rightarrow> point list
   \<Rightarrow> point list option" where
  "while_gt body step bound v points =
     (if v > bound then while_gt body step bound (v - step) (body v points)
      else Some points)"

section \<open>Zigzag planner\<close>

text \<open>\<^verbatim>\<open>if is_valid(x, y): points.append((x, y))\<close>\<close>

definition visit :: "wall \<Rightarrow> rectangle list \<Rightarrow> real \<Rightarrow> real \<Rightarrow> point list \<Rightarrow> point list" where
  "visit w expanded_obstacles x y points =
     (if is_valid w expanded_obstacles x y then points @ [(x, y)] else points)"

text \<open>The two \<^verbatim>\<open>for (seg_start, seg_end) in ...\<close> loops of a row.\<close>

fun scan_left_to_right ::
  "wall \<Rightarrow> rectangle list \<Rightarrow> real \<Rightarrow> real \<Rightarrow> (real \<times> real) list \<Rightarrow> point list
   \<Rightarrow> point list option" where
  "scan_left_to_right w expanded_obstacles resolution y [] points = Some points"
| "scan_left_to_right w expanded_obstacles resolution y ((seg_start, seg_end) # segments) points =
     Option.bind
       (while_le (\<lambda>x. visit w expanded_obstacles x y) resolution seg_end seg_start points)
       (scan_left_to_right w expanded_obstacles resolution y segments)"

fun scan_right_to_left ::
  "wall \<Rightarrow> rectangle list \<Rightarrow> real \<Rightarrow> real \<Rightarrow> (real \<times> real) list \<Rightarrow> point list
   \<Rightarrow> point list option" where
  "scan_right_to_left w expanded_obstacles resolution y [] points = Some points"
| "scan_right_to_left w expanded_obstacles resolution y ((seg_start, seg_end) # segments) points =
     Option.bind
       (while_ge (\<lambda>x. visit w expanded_obstacles x y) resolution seg_start seg_end points)
       (scan_right_to_left w expanded_obstacles resolution y segments)"

text \<open>The body of the row loop, up to the update of \<^verbatim>\<open>direction\<close> and \<^verbatim>\<open>y\<close>.\<close>

definition zigzag_row ::
  "wall \<Rightarrow> rectangle list \<Rightarrow> rectangle list \<Rightarrow> real \<Rightarrow> real \<Rightarrow> real \<Rightarrow> int \<Rightarrow> point list
   \<Rightarrow> point list option" where
  "zigzag_row w obstacles expanded_obstacles clearance resolution y direction points =
     (let segments = get_free_segments_in_row w y obstacles clearance
      in if direction = 1
         then scan_left_to_right w expanded_obstacles resolution y segments points
         else scan_right_to_left w expanded_obstacles resolution y (rev segments) points)"

text \<open>
  \<^verbatim>\<open>while y < wall.height: ...; direction *= -1; y += spacing\<close>, for any row body.
\<close>

partial_function (option) zigzag_rows ::
  "(real \<Rightarrow> int \<Rightarrow> point list \<Rightarrow> point list option) \<Rightarrow> real \<Rightarrow> real \<Rightarrow> real \<Rightarrow> int
   \<Rightarrow> point list \<Rightarrow> point list option" where
  "zigzag_rows row height spacing y direction points =
     (if y < height
      then Option.bind (row y direction points)
             (zigzag_rows row height spacing (y + spacing) (direction * (- 1)))
      else Some points)"

text \<open>
  \<^verbatim>\<open>plan_zigzag(wall, obstacles, spacing, clearance, resolution)\<close>; the list
  \<^verbatim>\<open>expanded_obstacles\<close> that \<^verbatim>\<open>is_valid\<close> reads is passed as well.
\<close>

definition plan_zigzag ::
  "wall \<Rightarrow> rectangle list \<Rightarrow> rectangle list \<Rightarrow> real \<Rightarrow> real \<Rightarrow> real \<Rightarrow> point list option" where
  "plan_zigzag w obstacles expanded_obstacles spacing clearance resolution =
     zigzag_rows (zigzag_row w obstacles expanded_obstacles clearance resolution)
       (wall_height w) spacing (spacing / 2) 1 []"

section \<open>Spiral planner\<close>

subsection \<open>The README's version\<close>

text \<open>
  The README gives the planner as Python, and that is the version embedded here. The
  design document holds an earlier sketch of it, whose edges iterate \<^verbatim>\<open>range\<close> over
  real bounds, which Python refuses.

  Modelled from the spec: the README tests \<^verbatim>\<open>crosses_obstacle(last_point, p)\<close> and
  defines neither name. Section 4.5 checks the segment from the previous accepted
  point, so \<^verbatim>\<open>last_point\<close> is the last element of \<^verbatim>\<open>points\<close> (none while the list is
  empty, and then nothing is crossed) and \<^verbatim>\<open>crosses_obstacle\<close> is
  \<^const>\<open>segment_crosses_obstacle\<close>.
\<close>

definition last_point :: "point list \<Rightarrow> point option" where
  "last_point points = (if points = [] then None else Some (last points))"

definition crosses_obstacle ::
  "real \<Rightarrow> real \<Rightarrow> rectangle list \<Rightarrow> point option \<Rightarrow> real \<Rightarrow> real \<Rightarrow> bool" where
  "crosses_obstacle tolerance resolution expanded_obstacles lp x y =
     (case lp of
        None \<Rightarrow> False
      | Some p \<Rightarrow> segment_crosses_obstacle tolerance resolution expanded_obstacles (fst p) (snd p) x y)"

text \<open>
  \<^verbatim>\<open>if is_point_valid(x, y): if not crosses_obstacle(last_point, (x, y)): points.append((x, y))\<close>
\<close>

definition spiral_visit ::
  "wall \<Rightarrow> rectangle list \<Rightarrow> real \<Rightarrow> real \<Rightarrow> real \<Rightarrow> real \<Rightarrow> point list \<Rightarrow> point list" where
  "spiral_visit w expanded_obstacles tolerance resolution x y points =
     (if is_valid w expanded_obstacles x y
      then (if \<not> crosses_obstacle tolerance resolution expanded_obstacles (last_point points) x y
            then points @ [(x, y)] else points)
      else points)"

text \<open>The four edges of one layer: top, right, bottom, left.\<close>

definition trace_layer ::
  "wall \<Rightarrow> rectangle list \<Rightarrow> real \<Rightarrow> real \<Rightarrow> rectangle \<Rightarrow> point list \<Rightarrow> point list option" where
  "trace_layer w expanded_obstacles tolerance resolution rect points =
     Option.bind
       (while_le (\<lambda>x. spiral_visit w expanded_obstacles tolerance resolution x (rect_y rect))
          resolution (rect_x rect + rect_width rect) (rect_x rect) points)
     (\<lambda>points. Option.bind
       (while_le (\<lambda>y. spiral_visit w expanded_obstacles tolerance resolution
                        (rect_x rect + rect_width rect) y)
          resolution (rect_y rect + rect_height rect) (rect_y rect + resolution) points)
     (\<lambda>points. Option.bind
       (while_ge (\<lambda>x. spiral_visit w expanded_obstacles tolerance resolution x
                        (rect_y rect + rect_height rect))
          resolution (rect_x rect) (rect_x rect + rect_width rect - resolution) points)
     (\<lambda>points.
       while_gt (\<lambda>y. spiral_visit w expanded_obstacles tolerance resolution (rect_x rect) y)
          resolution (rect_y rect + resolution) (rect_y rect + rect_height rect - resolution)
          points)))"

text \<open>The rectangle of the layer at an offset.\<close>

definition layer_rect :: "wall \<Rightarrow> real \<Rightarrow> rectangle" where
  "layer_rect w offset =
     \<lparr>rect_x = offset, rect_y = offset,
      rect_width = wall_width w - 2 * offset,
      rect_height = wall_height w - 2 * offset\<rparr>"

text \<open>
  \<^verbatim>\<open>while offset < max(wall_width, wall_height): rect = ...;
  if rect.width <= resolution or rect.height <= resolution: break; ...; offset += spacing\<close>,
  for any layer body.
\<close>

partial_function (option) spiral_layers ::
  "(rectangle \<Rightarrow> point list \<Rightarrow> point list option) \<Rightarrow> wall \<Rightarrow> real \<Rightarrow> real \<Rightarrow> real
   \<Rightarrow> point list \<Rightarrow> point list option" where
  "spiral_layers layer w spacing resolution offset points =
     (if offset < max (wall_width w) (wall_height w)
      then (if rect_width (layer_rect w offset) \<le> resolution
               \<or> rect_height (layer_rect w offset) \<le> resolution
            then Some points
            else Option.bind (layer (layer_rect w offset) points)
                   (spiral_layers layer w spacing resolution (offset + spacing)))
      else Some points)"

definition plan_spiral ::
  "wall \<Rightarrow> rectangle list \<Rightarrow> real \<Rightarrow> real \<Rightarrow> real \<Rightarrow> point list option" where
  "plan_spiral w expanded_obstacles tolerance spacing resolution =
     spiral_layers (trace_layer w expanded_obstacles tolerance resolution)
       w spacing resolution (spacing / 2) []"

subsection \<open>The loop as the specification words it\<close>

text \<open>
  Section 4.5 of the specification, to be compared with the README's loop: loop while
  \<open>offset < min(W, H) / 2\<close>; if the layer's width or height is at most the
  resolution, terminate; trace the layer; advance the offset by the spacing.
\<close>

partial_function (option) spiral_layers_spec ::
  "(rectangle \<Rightarrow> point list \<Rightarrow> point list option) \<Rightarrow> wall \<Rightarrow> real \<Rightarrow> real \<Rightarrow> real
   \<Rightarrow> point list \<Rightarrow> point list option" where
  "spiral_layers_spec layer w spacing resolution offset points =
     (if offset < min (wall_width w) (wall_height w) / 2
      then (if rect_width (layer_rect w offset) \<le> resolution
               \<or> rect_height (layer_rect w offset) \<le> resolution
            then Some points
            else Option.bind (layer (layer_rect w offset) points)
                   (spiral_layers_spec layer w spacing resolution (offset + spacing)))
      else Some points)"

section \<open>Path validation\<close>

text \<open>The two loops of \<^verbatim>\<open>validate_path_safety\<close>; the first failure is the one raised.\<close>

fun validate_points :: "wall \<Rightarrow> rectangle list \<Rightarrow> point list \<Rightarrow> error + unit" where
  "validate_points w expanded_obstacles [] = Inr ()"
| "validate_points w expanded_obstacles (point # rest) =
     (if \<not> is_valid w expanded_obstacles (fst point) (snd point)
      then Inl (ValueError (Path_point_inside_obstacle point))
      else validate_points w expanded_obstacles rest)"

fun validate_segments ::
  "real \<Rightarrow> real \<Rightarrow> rectangle list \<Rightarrow> nat \<Rightarrow> point list \<Rightarrow> error + unit" where
  "validate_segments tolerance resolution expanded_obstacles i (p1 # p2 # rest) =
     (if segment_crosses_obstacle tolerance resolution expanded_obstacles
           (fst p1) (snd p1) (fst p2) (snd p2)
      then Inl (ValueError (Path_segment_crosses_obstacle i))
      else validate_segments tolerance resolution expanded_obstacles (Suc i) (p2 # rest))"
| "validate_segments tolerance resolution expanded_obstacles i points = Inr ()"

definition validate_path_safety ::
  "wall \<Rightarrow> rectangle list \<Rightarrow> real \<Rightarrow> real \<Rightarrow> point list \<Rightarrow> error + unit" where
  "validate_path_safety w expanded_obstacles tolerance resolution points =
     (case validate_points w expanded_obstacles points of
        Inl e \<Rightarrow> Inl e
      | Inr u \<Rightarrow> validate_segments tolerance resolution expanded_obstacles 0 points)"

section \<open>Metrics\<close>

text \<open>\<^verbatim>\<open>for i in range(len(points) - 1): total_length += euclidean_distance(points[i], points[i + 1])\<close>\<close>

definition calculate_path_length :: "point list \<Rightarrow> real" where
  "calculate_path_length points =
     fold (\<lambda>i total_length. total_length + euclidean_distance (points ! i) (points ! (i + 1)))
       [0..<length points - 1] 0"

definition estimate_duration :: "real \<Rightarrow> real \<Rightarrow> error + real" where
  "estimate_duration path_length robot_speed =
     (if robot_speed = 0 then Inl ZeroDivisionError else Inr (path_length / robot_speed))"

section \<open>The planning call\<close>

text \<open>\<^verbatim>\<open>MAX_POINTS = 10000\<close> of the design document.\<close>

definition MAX_POINTS :: nat where
  "MAX_POINTS = 10000"

text \<open>The waypoint generation of the selected pattern.\<close>

definition generate ::
  "wall \<Rightarrow> rectangle list \<Rightarrow> rectangle list \<Rightarrow> settings \<Rightarrow> real \<Rightarrow> point list option" where
  "generate w obstacles expanded_obstacles st tolerance =
     (case s_pattern st of
        Zigzag \<Rightarrow> plan_zigzag w obstacles expanded_obstacles
                    (s_spacing st) (s_clearance st) (s_resolution st)
      | Spiral \<Rightarrow> plan_spiral w expanded_obstacles tolerance (s_spacing st) (s_resolution st))"

text \<open>
  Modelled from the spec: the checks of the input that raise section 7's
  \<open>ConfigurationError\<close> and are not among the planner's pseudo-code. Section 3 gives
  the wall (\<open>W > 0\<close>, \<open>H > 0\<close>), the obstacle (position at least 0, size above 0,
  \<open>x + w \<le> W\<close>, \<open>y + h \<le> H\<close>) and the ranges of the settings; the API
  specification lists the same rules as request validation.
\<close>

definition valid_obstacle :: "wall \<Rightarrow> rectangle \<Rightarrow> bool" where
  "valid_obstacle w obstacle \<longleftrightarrow>
     0 \<le> rect_x obstacle \<and> 0 \<le> rect_y obstacle \<and>
     0 < rect_width obstacle \<and> 0 < rect_height obstacle \<and>
     rect_x obstacle + rect_width obstacle \<le> wall_width w \<and>
     rect_y obstacle + rect_height obstacle \<le> wall_height w"

definition valid_settings :: "settings \<Rightarrow> bool" where
  "valid_settings st \<longleftrightarrow>
     0 < s_spacing st \<and> s_spacing st \<le> 1 \<and>
     0 < s_speed st \<and> s_speed st \<le> 2 \<and>
     0 \<le> s_clearance st \<and> s_clearance st \<le> 0.5 \<and>
     0 < s_resolution st \<and> s_resolution st \<le> 0.1"

definition valid_request :: "wall \<Rightarrow> rectangle list \<Rightarrow> settings \<Rightarrow> bool" where
  "valid_request w obstacles st \<longleftrightarrow>
     0 < wall_width w \<and> 0 < wall_height w \<and>
     list_all (valid_obstacle w) obstacles \<and> valid_settings st"

text \<open>
  The design document's first edge case:
  \<^verbatim>\<open>if obstacle.width >= wall.width or obstacle.height >= wall.height: raise ValueError(...)\<close>,
  for some obstacle of the list.
\<close>

definition exceeds_wall :: "wall \<Rightarrow> rectangle list \<Rightarrow> bool" where
  "exceeds_wall w obstacles =
     list_ex (\<lambda>obstacle. rect_width obstacle \<ge> wall_width w
                        \<or> rect_height obstacle \<ge> wall_height w) obstacles"

text \<open>
  Modelled from the spec: the function that composes the fragments of the documents into
  one planning call is not in the documents. It follows the flow of section 2 and the
  technical report's \<^verbatim>\<open>ZIGZAG_COVERAGE\<close>:
  \<^item> the checks of the input (section 7), then the design document's guard on the
    obstacles' dimensions;
  \<^item> the obstacle expander in the order of section 4.2, expansion and then merge, each
    step being the documents' own function: \<^const>\<open>expand_obstacles\<close>, which does not
    clamp (\<^const>\<open>is_valid\<close> tests the wall's bounds itself), and
    \<^const>\<open>merge_obstacles\<close>, which makes one pass. The result is the list
    \<^verbatim>\<open>expanded_obstacles\<close> that point and segment tests read; the free segments of a
    row are computed by \<^const>\<open>get_free_segments_in_row\<close> from the raw obstacles and
    the clearance, as its parameters say;
  \<^item> the planner of the selected pattern;
  \<^item> the path validator in the order of section 4.6: the point pass and the segment
    pass of \<^const>\<open>validate_path_safety\<close>, then the count: the design document's
    tests for an empty list and for more than the maximum of points;
  \<^item> the metrics and the trajectory.
  The maximum is the caller's (section 6); the design document's constant is
  \<^const>\<open>MAX_POINTS\<close>. The result is \<open>None\<close> when a loop of the planner does not
  return.
\<close>

definition plan ::
  "wall \<Rightarrow> rectangle list \<Rightarrow> settings \<Rightarrow> nat \<Rightarrow> real \<Rightarrow> (error + trajectory) option" where
  "plan w obstacles st max_points tolerance =
     (if \<not> valid_request w obstacles st then Some (Inl ConfigurationError)
      else if exceeds_wall w obstacles
      then Some (Inl (ValueError Obstacle_exceeds_wall_dimensions))
      else
        let expanded_obstacles = merge_obstacles (expand_obstacles obstacles (s_clearance st))
        in Option.bind (generate w obstacles expanded_obstacles st tolerance)
             (\<lambda>points. Some
                (case validate_path_safety w expanded_obstacles tolerance
                        (s_resolution st) points of
                   Inl e \<Rightarrow> Inl e
                 | Inr u \<Rightarrow>
                     if length points = 0 then Inl (ValueError No_valid_coverage_path)
                     else if length points > max_points
                     then Inl (ValueError (Trajectory_too_large (length points)))
                     else (case estimate_duration (calculate_path_length points) (s_speed st) of
                             Inl e \<Rightarrow> Inl e
                           | Inr d \<Rightarrow>
                               Inr \<lparr>traj_points = points,
                                    length_m = calculate_path_length points,
                                    duration_s = d,
                                    point_count = length points\<rparr>))))"

section \<open>The frontend's plan requests\<close>

text \<open>
  \<^verbatim>\<open>App.tsx\<close>: the state of the component, the data the wall form submits, and the
  \<^verbatim>\<open>api.createPlan(wallId, {settings})\<close> call that each of the two handlers issues once
  the wall is known.
\<close>

record app_state =
  isGenerating :: bool
  errorMessage :: "string option"
  activeWall :: "nat option"
  activePath :: "nat option"
  selectedPattern :: pattern

record wall_create_request =
  req_width :: real
  req_height :: real
  req_obstacles :: "rectangle list"

record plan_request =
  plan_wall_id :: nat
  plan_settings :: settings

text \<open>\<^verbatim>\<open>createWallAndPath(wallData)\<close>, with the id of the wall that \<^verbatim>\<open>api.createWall\<close> returned.\<close>

definition createWallAndPath :: "app_state \<Rightarrow> wall_create_request \<Rightarrow> nat \<Rightarrow> plan_request" where
  "createWallAndPath state wallData newWall_id =
     (let toolSpacing = (if selectedPattern state = Spiral then 0.05 else 0.2);
          plannerConfig = \<lparr>s_pattern = selectedPattern state,
                           s_spacing = toolSpacing,
                           s_speed = 0.1,
                           s_clearance = 0.02,
                           s_resolution = 0.01\<rparr>
      in \<lparr>plan_wall_id = newWall_id, plan_settings = plannerConfig\<rparr>)"

text \<open>
  The \<^verbatim>\<open>onClick\<close> handler of the regenerate button. The button is rendered under
  \<^verbatim>\<open>!isGenerating && activePath && activeWall\<close> only, so in any other state there is
  nothing to click and no request.
\<close>

definition regenerate :: "app_state \<Rightarrow> plan_request option" where
  "regenerate state =
     (if \<not> isGenerating state \<and> activePath state \<noteq> None
      then (case activeWall state of
              None \<Rightarrow> None
            | Some activeWall_id \<Rightarrow>
                (let toolSpacing = (if selectedPattern state = Spiral then 0.05 else 0.2);
                     plannerConfig = \<lparr>s_pattern = selectedPattern state,
                                      s_spacing = toolSpacing,
                                      s_speed = 0.1,
                                      s_clearance = 0.02,
                                      s_resolution = 0.01\<rparr>
                 in Some \<lparr>plan_wall_id = activeWall_id, plan_settings = plannerConfig\<rparr>))
      else None)"

section \<open>Auxiliary notions\<close>

text \<open>Containment of one rectangle in another.\<close>

definition rect_subset :: "rectangle \<Rightarrow> rectangle \<Rightarrow> bool" where
  "rect_subset a b \<longleftrightarrow>
     rect_x b \<le> rect_x a \<and> rect_x a + rect_width a \<le> rect_x b + rect_width b \<and>
     rect_y b \<le> rect_y a \<and> rect_y a + rect_height a \<le> rect_y b + rect_height b"

text \<open>
  The number of values \<open>v, v + step, v + 2 step, ...\<close> that are at most, respectively
  below, a bound: how often a stepping loop runs its body.
\<close>

definition steps_le :: "real \<Rightarrow> real \<Rightarrow> real \<Rightarrow> nat" where
  "steps_le step bound v = (if v \<le> bound then nat \<lfloor>(bound - v) / step\<rfloor> + 1 else 0)"

definition steps_lt :: "real \<Rightarrow> real \<Rightarrow> real \<Rightarrow> nat" where
  "steps_lt step bound v = (if v < bound then nat \<lceil>(bound - v) / step\<rceil> else 0)"

text \<open>
  A row body run on a list of rows, and a layer body run on a list of layers, each
  starting from the points the previous one returned.
\<close>

fun run_rows ::
  "(real \<Rightarrow> int \<Rightarrow> point list \<Rightarrow> point list option) \<Rightarrow> (real \<times> int) list \<Rightarrow> point list
   \<Rightarrow> point list option" where
  "run_rows row [] points = Some points"
| "run_rows row ((y, direction) # rest) points =
     Option.bind (row y direction points) (run_rows row rest)"

fun run_layers ::
  "(rectangle \<Rightarrow> point list \<Rightarrow> point list option) \<Rightarrow> rectangle list \<Rightarrow> point list
   \<Rightarrow> point list option" where
  "run_layers layer [] points = Some points"
| "run_layers layer (rect # rest) points = Option.bind (layer rect points) (run_layers layer rest)"

text \<open>
  The points of one row, written out. From left to right: the segments in the order of
  the list, and in each segment the valid ones among
  \<open>seg_start, seg_start + resolution, ...\<close> up to \<open>seg_end\<close>. From right to left: in
  each segment of the list the valid ones among
  \<open>seg_end, seg_end - resolution, ...\<close> down to \<open>seg_start\<close>.
\<close>

definition row_left_to_right ::
  "wall \<Rightarrow> rectangle list \<Rightarrow> real \<Rightarrow> real \<Rightarrow> (real \<times> real) list \<Rightarrow> point list" where
  "row_left_to_right w expanded_obstacles resolution y segments =
     concat (map (\<lambda>(seg_start, seg_end).
        map (\<lambda>x. (x, y))
          (filter (\<lambda>x. is_valid w expanded_obstacles x y)
             (map (\<lambda>i. seg_start + real i * resolution)
                [0..<steps_le resolution seg_end seg_start]))) segments)"

definition row_right_to_left ::
  "wall \<Rightarrow> rectangle list \<Rightarrow> real \<Rightarrow> real \<Rightarrow> (real \<times> real) list \<Rightarrow> point list" where
  "row_right_to_left w expanded_obstacles resolution y segments =
     concat (map (\<lambda>(seg_start, seg_end).
        map (\<lambda>x. (x, y))
          (filter (\<lambda>x. is_valid w expanded_obstacles x y)
             (map (\<lambda>i. seg_end - real i * resolution)
                [0..<steps_le resolution seg_end seg_start]))) segments)"

text \<open>
  Segments in order from a lower bound on: none starts before the previous one ends, and
  none ends before it starts.
\<close>

fun ordered_from :: "real \<Rightarrow> (real \<times> real) list \<Rightarrow> bool" where
  "ordered_from lo [] = True"
| "ordered_from lo ((seg_start, seg_end) # segments) =
     (lo \<le> seg_start \<and> seg_start \<le> seg_end \<and> ordered_from seg_end segments)"

section \<open>The row coordinate in floating point\<close>

text \<open>
  The documents' pseudo-code is Python, whose numbers are IEEE 754 binary64 values. The
  model above computes in exact reals; for the row coordinate the difference is made
  explicit here. \<open>binary64\<close> rounds a real to the nearest value with a significand of 53
  bits, ties to the even significand (normal range only, which covers the coordinates
  of a wall). The row loop starts at \<^verbatim>\<open>y = spacing / 2\<close> and runs \<^verbatim>\<open>y += spacing\<close>,
  each rounded.
\<close>

definition round_half_even :: "real \<Rightarrow> int" where
  "round_half_even x =
     (let f = \<lfloor>x\<rfloor>; d = x - of_int f
      in if d < 1 / 2 then f else if 1 / 2 < d then f + 1
         else if even f then f else f + 1)"

definition binary64 :: "real \<Rightarrow> real" where
  "binary64 x =
     (if x = 0 then 0
      else let e = \<lfloor>log 2 \<bar>x\<bar>\<rfloor> - 52
           in of_int (round_half_even (x / 2 powr of_int e)) * 2 powr of_int e)"

fun row_y_binary64 :: "real \<Rightarrow> nat \<Rightarrow> real" where
  "row_y_binary64 spacing 0 = binary64 (spacing / 2)"
| "row_y_binary64 spacing (Suc k) = binary64 (row_y_binary64 spacing k + spacing)"

section \<open>Worked inputs\<close>

text \<open>
  A wall of 0.3125 by 0.25 with one obstacle at its left edge, rows 0.25 apart and
  points 0.0625 apart: one row at \<open>y = 0.125\<close>, which starts right of the obstacle
  grown by the clearance.
\<close>

definition example_wall :: wall where
  "example_wall = \<lparr>wall_width = 0.3125, wall_height = 0.25\<rparr>"

definition example_obstacle :: rectangle where
  "example_obstacle = \<lparr>rect_x = 0, rect_y = 0.0625, rect_width = 0.0625, rect_height = 0.125\<rparr>"

definition example_settings :: settings where
  "example_settings = \<lparr>s_pattern = Zigzag, s_spacing = 0.25, s_speed = 0.125,
     s_clearance = 0.015625, s_resolution = 0.0625\<rparr>"

definition example_points :: "point list" where
  "example_points = [(0.140625, 0.125), (0.203125, 0.125), (0.265625, 0.125)]"

definition example_trajectory :: trajectory where
  "example_trajectory = \<lparr>traj_points = example_points,
      length_m = calculate_path_length example_points,
      duration_s = calculate_path_length example_points / 0.125,
      point_count = 3\<rparr>"

text \<open>
  The same wall and settings with the obstacle in the middle of the row: it splits the
  row in two, and the three generated points lie on both sides of it.
\<close>

definition split_obstacle :: rectangle where
  "split_obstacle = \<lparr>rect_x = 0.125, rect_y = 0.0625, rect_width = 0.0625, rect_height = 0.125\<rparr>"

definition split_points :: "point list" where
  "split_points = [(0, 0.125), (0.0625, 0.125), (0.265625, 0.125)]"

text \<open>
  A low wall with two rows, a spacing \<open>s\<close> apart, and a thin obstacle at the right edge
  between the rows; the clearance is a quarter of the spacing. The two rows' points are
  at \<open>x = 0\<close> and \<open>x = 0.1\<close>.
\<close>

definition thin_wall :: "real \<Rightarrow> wall" where
  "thin_wall s = \<lparr>wall_width = 0.1, wall_height = 2 * s\<rparr>"

definition thin_obstacle :: "real \<Rightarrow> rectangle" where
  "thin_obstacle s = \<lparr>rect_x = 0.05, rect_y = 0.975 * s, rect_width = 0.05,
     rect_height = 0.05 * s\<rparr>"

definition thin_settings :: "real \<Rightarrow> settings" where
  "thin_settings s = \<lparr>s_pattern = Zigzag, s_spacing = s, s_speed = 0.1,
     s_clearance = 0.25 * s, s_resolution = 0.1\<rparr>"

definition thin_points :: "real \<Rightarrow> point list" where
  "thin_points s = [(0, s / 2), (0.1, s / 2), (0.1, s / 2 + s), (0, s / 2 + s)]"

definition thin_trajectory :: "real \<Rightarrow> trajectory" where
  "thin_trajectory s = \<lparr>traj_points = thin_points s,
      length_m = calculate_path_length (thin_points s),
      duration_s = calculate_path_length (thin_points s) / 0.1,
      point_count = 4\<rparr>"

text \<open>
  A wall of four rows with a spacing of 0.125: an obstacle that, grown by a clearance of
  0.0078125, spans the whole width at the height of the second row.
\<close>

definition four_row_wall :: wall where
  "four_row_wall = \<lparr>wall_width = 0.125, wall_height = 0.5\<rparr>"

definition stripe_obstacle :: rectangle where
  "stripe_obstacle = \<lparr>rect_x = 0.0078125, rect_y = 0.171875, rect_width = 0.109375,
     rect_height = 0.03125\<rparr>"

text \<open>A wall on which the spiral with a spacing of 0.125 has one layer.\<close>

definition small_wall :: wall where
  "small_wall = \<lparr>wall_width = 0.25, wall_height = 0.25\<rparr>"

text \<open>
  The unit wall with an obstacle that is smaller than the wall and whose expansion by
  \<open>0.125\<close> is the whole wall.
\<close>

definition unit_wall :: wall where
  "unit_wall = \<lparr>wall_width = 1, wall_height = 1\<rparr>"

definition blocked_obstacle :: rectangle where
  "blocked_obstacle = \<lparr>rect_x = 0.125, rect_y = 0.125, rect_width = 0.75, rect_height = 0.75\<rparr>"

definition blocked_settings :: settings where
  "blocked_settings = \<lparr>s_pattern = Zigzag, s_spacing = 1, s_speed = 0.125,
     s_clearance = 0.125, s_resolution = 0.0625\<rparr>"

text \<open>
  Scenario A: a 5 by 5 wall without obstacles, spacing \<open>0.2\<close>, resolution \<open>0.01\<close>.
  Row \<open>k\<close> holds the 501 points \<open>(i / 100, 0.1 + 0.2 k)\<close>, from left to right
  when \<open>k\<close> is even and from right to left when it is odd.
\<close>

definition scenario_wall :: wall where
  "scenario_wall = \<lparr>wall_width = 5, wall_height = 5\<rparr>"

definition scenario_settings :: settings where
  "scenario_settings = \<lparr>s_pattern = Zigzag, s_spacing = 0.2, s_speed = 0.1,
     s_clearance = 0.02, s_resolution = 0.01\<rparr>"

definition scenario_row :: "nat \<Rightarrow> point list" where
  "scenario_row k =
     (let row = map (\<lambda>i. (real i * 0.01, 0.1 + real k * 0.2)) [0..<501]
      in if even k then row else rev row)"

definition scenario_points :: "point list" where
  "scenario_points = concat (map scenario_row [0..<25])"


text \<open>
  Scenario B: an obstacle that extends beyond the wall's width. Scenario C: one obstacle
  that is the whole 5 by 5 wall.
\<close>

definition outside_obstacle :: rectangle where
  "outside_obstacle = \<lparr>rect_x = 4.9, rect_y = 0, rect_width = 0.5, rect_height = 0.5\<rparr>"

definition full_obstacle :: rectangle where
  "full_obstacle = \<lparr>rect_x = 0, rect_y = 0, rect_width = 5, rect_height = 5\<rparr>"

text \<open>
  Three obstacles in a row: the first two are apart, the third overlaps both.
\<close>

definition left_obstacle :: rectangle where
  "left_obstacle = \<lparr>rect_x = 0, rect_y = 0, rect_width = 1, rect_height = 1\<rparr>"

definition right_obstacle :: rectangle where
  "right_obstacle = \<lparr>rect_x = 3, rect_y = 0, rect_width = 1, rect_height = 1\<rparr>"

definition bridge_obstacle :: rectangle where
  "bridge_obstacle = \<lparr>rect_x = 0.5, rect_y = 0, rect_width = 3, rect_height = 1\<rparr>"

text \<open>The component's initial state and the form's default content.\<close>

definition initial_state :: app_state where
  "initial_state = \<lparr>isGenerating = False, errorMessage = None, activeWall = None,
     activePath = None, selectedPattern = Zigzag\<rparr>"

definition default_form :: wall_create_request where
  "default_form = \<lparr>req_width = 5, req_height = 5,
     req_obstacles = [\<lparr>rect_x = 1.5, rect_y = 3.5, rect_width = 1.2, rect_height = 0.8\<rparr>,
                      \<lparr>rect_x = 3.5, rect_y = 1, rect_width = 0.4, rect_height = 0.4\<rparr>,
                      \<lparr>rect_x = 0.5, rect_y = 0.5, rect_width = 0.6, rect_height = 0.6\<rparr>]\<rparr>"

section \<open>Properties\<close>

subsection \<open>The worked input\<close>

lemma example_valid: "valid_request example_wall [example_obstacle] example_settings"
  by (simp add: valid_request_def valid_obstacle_def valid_settings_def example_wall_def
      example_obstacle_def example_settings_def)

lemma example_fits: "\<not> exceeds_wall example_wall [example_obstacle]"
  by (simp add: exceeds_wall_def example_wall_def example_obstacle_def)

lemma example_merge:
  "merge_obstacles (expand_obstacles [example_obstacle] c) = expand_obstacles [example_obstacle] c"
  by (simp add: merge_obstacles_def find_overlapping_def expand_obstacles_def)

lemma example_generate:
  "generate example_wall [example_obstacle] (expand_obstacles [example_obstacle] (s_clearance example_settings))
      example_settings tol = Some example_points"
  by (simp add: generate_def example_settings_def example_points_def plan_zigzag_def
      zigzag_rows.simps example_wall_def zigzag_row_def get_free_segments_in_row_def
      example_obstacle_def expand_obstacle_def expand_obstacles_def while_le.simps visit_def
      is_valid_def contains_point_def)

lemma example_validate:
  "0 < tol \<Longrightarrow> validate_path_safety example_wall (expand_obstacles [example_obstacle] (s_clearance example_settings)) tol
     (s_resolution example_settings) example_points = Inr ()"
  by (simp add: validate_path_safety_def example_settings_def example_points_def example_wall_def
      example_obstacle_def expand_obstacles_def is_valid_def contains_point_def
      segment_crosses_obstacle_def intersects_horizontal_segment_def)

lemma example_plan:
  assumes "0 < tol"
  shows "plan example_wall [example_obstacle] example_settings 10 tol = Some (Inr example_trajectory)"
proof -
  have l: "length example_points = 3" "example_points \<noteq> []" by (simp_all add: example_points_def)
  have sp: "s_speed example_settings = 0.125" by (simp add: example_settings_def)
  show ?thesis
    unfolding plan_def using assms
    by (simp add: example_valid example_fits example_merge example_generate example_validate l sp
        estimate_duration_def example_trajectory_def Let_def)
qed

subsection \<open>Validation\<close>

lemma validate_points_ok:
  "validate_points w ex points = Inr u \<Longrightarrow> p \<in> set points \<Longrightarrow> is_valid w ex (fst p) (snd p)"
  by (induction points) (auto split: if_splits)

lemma validate_segments_ok:
  "validate_segments tol res ex k points = Inr u \<Longrightarrow> Suc i < length points \<Longrightarrow>
   \<not> segment_crosses_obstacle tol res ex (fst (points ! i)) (snd (points ! i))
        (fst (points ! Suc i)) (snd (points ! Suc i))"
proof (induction tol res ex k points arbitrary: i rule: validate_segments.induct)
  case (1 tol res ex k p1 p2 rest)
  then show ?case by (cases i) (auto split: if_splits)
qed simp_all

lemma is_valid_iff:
  "is_valid w ex x y \<longleftrightarrow>
     0 \<le> x \<and> x \<le> wall_width w \<and> 0 \<le> y \<and> y \<le> wall_height w \<and>
     (\<forall>obs \<in> set ex. \<not> contains_point obs x y)"
  by (auto simp: is_valid_def list_ex_iff)

subsection \<open>Merging keeps every obstacle covered\<close>

lemma rect_subset_refl: "rect_subset a a"
  by (simp add: rect_subset_def)

lemma rect_subset_union: "rect_subset a (union_rect a b)" "rect_subset b (union_rect a b)"
  by (simp_all add: rect_subset_def union_rect_def Let_def)

lemma merge_loop_covers:
  "o' \<in> set obstacles \<union> set merged \<Longrightarrow>
   \<exists>m \<in> set (merge_loop obstacles merged). rect_subset o' m"
proof (induction obstacles arbitrary: merged o')
  case Nil
  then show ?case using rect_subset_refl by auto
next
  case (Cons obs rest)
  show ?case
  proof (cases "find_overlapping obs merged")
    case None
    have "o' \<in> set rest \<union> set (merged @ [obs])" using Cons.prems by auto
    from Cons.IH[OF this] show ?thesis using None by simp
  next
    case (Some ov)
    let ?m = "remove1 ov merged @ [union_rect obs ov]"
    consider "o' \<in> set rest \<union> set ?m" | "o' = obs" | "o' = ov"
      using Cons.prems by (cases "o' = ov") auto
    then show ?thesis
    proof cases
      case 1
      from Cons.IH[OF this] show ?thesis using Some by simp
    next
      case 2
      have "union_rect obs ov \<in> set rest \<union> set ?m" by simp
      from Cons.IH[OF this] obtain m where m: "m \<in> set (merge_loop rest ?m)" "rect_subset (union_rect obs ov) m"
        by blast
      then have "rect_subset o' m" using rect_subset_union(1)[of obs ov] 2
        by (simp add: rect_subset_def)
      then show ?thesis using m(1) Some by auto
    next
      case 3
      have "union_rect obs ov \<in> set rest \<union> set ?m" by simp
      from Cons.IH[OF this] obtain m where m: "m \<in> set (merge_loop rest ?m)" "rect_subset (union_rect obs ov) m"
        by blast
      then have "rect_subset o' m" using rect_subset_union(2)[of ov obs] 3
        by (simp add: rect_subset_def)
      then show ?thesis using m(1) Some by auto
    qed
  qed
qed


lemma expand_obstacles_map: "expand_obstacles obstacles c = map (\<lambda>obs. expand_obstacle obs c) obstacles"
  by (simp add: expand_obstacles_def expand_obstacle_def)

lemma expanded_covered:
  assumes "e \<in> set (expand_obstacles obstacles c)"
  shows "\<exists>m \<in> set (merge_obstacles (expand_obstacles obstacles c)). rect_subset e m"
  using merge_loop_covers[of e "expand_obstacles obstacles c" "[]"] assms
  by (simp add: merge_obstacles_def)

lemma contains_point_mono: "rect_subset a b \<Longrightarrow> contains_point a x y \<Longrightarrow> contains_point b x y"
  by (auto simp: rect_subset_def contains_point_def)

lemma horizontal_mono:
  "rect_subset a b \<Longrightarrow> intersects_horizontal_segment a x1 x2 y \<Longrightarrow> intersects_horizontal_segment b x1 x2 y"
  by (auto simp: rect_subset_def intersects_horizontal_segment_def)

lemma vertical_mono:
  "rect_subset a b \<Longrightarrow> intersects_vertical_segment a x y1 y2 \<Longrightarrow> intersects_vertical_segment b x y1 y2"
  by (auto simp: rect_subset_def intersects_vertical_segment_def)

lemma sampling_mono:
  "rect_subset a b \<Longrightarrow> line_segment_intersects_rectangle res x1 y1 x2 y2 a
   \<Longrightarrow> line_segment_intersects_rectangle res x1 y1 x2 y2 b"
  unfolding line_segment_intersects_rectangle_def Let_def list_ex_iff
  using contains_point_mono by blast

lemma segment_crosses_mono:
  assumes "\<forall>e \<in> set es. \<exists>m \<in> set ms. rect_subset e m"
    and "segment_crosses_obstacle tol res es x1 y1 x2 y2"
  shows "segment_crosses_obstacle tol res ms x1 y1 x2 y2"
proof -
  from assms(2) obtain e where e: "e \<in> set es"
    "if \<bar>y2 - y1\<bar> < tol then intersects_horizontal_segment e x1 x2 y1
     else if \<bar>x2 - x1\<bar> < tol then intersects_vertical_segment e x1 y1 y2
     else line_segment_intersects_rectangle res x1 y1 x2 y2 e"
    unfolding segment_crosses_obstacle_def list_ex_iff by blast
  from assms(1) e(1) obtain m where m: "m \<in> set ms" "rect_subset e m" by blast
  have "if \<bar>y2 - y1\<bar> < tol then intersects_horizontal_segment m x1 x2 y1
     else if \<bar>x2 - x1\<bar> < tol then intersects_vertical_segment m x1 y1 y2
     else line_segment_intersects_rectangle res x1 y1 x2 y2 m"
    using e(2) m(2) horizontal_mono vertical_mono sampling_mono by (auto split: if_splits)
  then show ?thesis unfolding segment_crosses_obstacle_def list_ex_iff using m(1) by blast
qed

subsection \<open>What an accepted call went through\<close>

lemma plan_accepted:
  assumes "plan w obstacles st max_points tol = Some (Inr t)"
  shows "\<exists>points d. valid_request w obstacles st \<and> \<not> exceeds_wall w obstacles
        \<and> generate w obstacles
            (merge_obstacles (expand_obstacles obstacles (s_clearance st))) st tol = Some points
        \<and> points \<noteq> [] \<and> length points \<le> max_points
        \<and> validate_path_safety w (merge_obstacles (expand_obstacles obstacles (s_clearance st)))
             tol (s_resolution st) points = Inr ()
        \<and> estimate_duration (calculate_path_length points) (s_speed st) = Inr d
        \<and> t = \<lparr>traj_points = points, length_m = calculate_path_length points,
                duration_s = d, point_count = length points\<rparr>"
  using assms unfolding plan_def Let_def
  by (auto split: if_splits sum.splits simp: bind_eq_Some_conv)

subsection \<open>Axis-aligned segments between free points\<close>

lemma horizontal_exact:
  assumes "\<not> intersects_horizontal_segment r x1 x2 y"
    and "\<not> contains_point r x1 y" and "\<not> contains_point r x2 y"
    and "min x1 x2 \<le> t" and "t \<le> max x1 x2"
  shows "\<not> contains_point r t y"
  using assms
  by (auto simp: intersects_horizontal_segment_def contains_point_def min_def max_def
      split: if_splits)

lemma vertical_exact:
  assumes "\<not> intersects_vertical_segment r x y1 y2"
    and "\<not> contains_point r x y1" and "\<not> contains_point r x y2"
    and "min y1 y2 \<le> t" and "t \<le> max y1 y2"
  shows "\<not> contains_point r x t"
  using assms
  by (auto simp: intersects_vertical_segment_def contains_point_def min_def max_def
      split: if_splits)

lemma segment_horizontal_exact:
  assumes "\<not> segment_crosses_obstacle tol res es x1 y x2 y" and "0 < tol"
    and "\<forall>e \<in> set es. \<not> contains_point e x1 y" and "\<forall>e \<in> set es. \<not> contains_point e x2 y"
    and "min x1 x2 \<le> t" and "t \<le> max x1 x2" and "e \<in> set es"
  shows "\<not> contains_point e t y"
proof -
  have "\<not> intersects_horizontal_segment e x1 x2 y"
    using assms(1,2,7) by (auto simp: segment_crosses_obstacle_def list_ex_iff)
  then show ?thesis using horizontal_exact assms(3-7) by blast
qed

lemma segment_vertical_exact:
  assumes "\<not> segment_crosses_obstacle tol res es x y1 x y2" and "0 < tol" and "tol \<le> \<bar>y2 - y1\<bar>"
    and "\<forall>e \<in> set es. \<not> contains_point e x y1" and "\<forall>e \<in> set es. \<not> contains_point e x y2"
    and "min y1 y2 \<le> t" and "t \<le> max y1 y2" and "e \<in> set es"
  shows "\<not> contains_point e x t"
proof -
  have "\<not> intersects_vertical_segment e x y1 y2"
    using assms(1,2,3,8) by (auto simp: segment_crosses_obstacle_def list_ex_iff)
  then show ?thesis using vertical_exact assms(4-8) by blast
qed

subsection \<open>What the validation gives\<close>

text \<open>
  A trajectory that the planning call returns has every point inside the wall
  and inside no obstacle grown by the clearance, and no two consecutive points are joined
  by a segment that \<^const>\<open>segment_crosses_obstacle\<close> reports as crossing such an
  obstacle. For a horizontal segment, and for a vertical one at least as long as the
  positive tolerance, the report is exact: no point of the segment lies in such an
  obstacle.
\<close>

lemma accepted_trajectory_passed_validation:
  assumes "plan w obstacles st max_points tol = Some (Inr t)"
  shows "(\<forall>p \<in> set (traj_points t).
            0 \<le> fst p \<and> fst p \<le> wall_width w \<and> 0 \<le> snd p \<and> snd p \<le> wall_height w \<and>
            (\<forall>obs \<in> set (expand_obstacles obstacles (s_clearance st)).
                \<not> contains_point obs (fst p) (snd p))) \<and>
         (\<forall>i. Suc i < length (traj_points t) \<longrightarrow>
            \<not> segment_crosses_obstacle tol (s_resolution st)
                (expand_obstacles obstacles (s_clearance st))
                (fst (traj_points t ! i)) (snd (traj_points t ! i))
                (fst (traj_points t ! Suc i)) (snd (traj_points t ! Suc i))) \<and>
         (\<forall>i x. Suc i < length (traj_points t) \<and> 0 < tol \<and>
              snd (traj_points t ! i) = snd (traj_points t ! Suc i) \<and>
              min (fst (traj_points t ! i)) (fst (traj_points t ! Suc i)) \<le> x \<and>
              x \<le> max (fst (traj_points t ! i)) (fst (traj_points t ! Suc i)) \<longrightarrow>
            (\<forall>obs \<in> set (expand_obstacles obstacles (s_clearance st)).
                \<not> contains_point obs x (snd (traj_points t ! i)))) \<and>
         (\<forall>i y. Suc i < length (traj_points t) \<and> 0 < tol \<and>
              fst (traj_points t ! i) = fst (traj_points t ! Suc i) \<and>
              tol \<le> \<bar>snd (traj_points t ! Suc i) - snd (traj_points t ! i)\<bar> \<and>
              min (snd (traj_points t ! i)) (snd (traj_points t ! Suc i)) \<le> y \<and>
              y \<le> max (snd (traj_points t ! i)) (snd (traj_points t ! Suc i)) \<longrightarrow>
            (\<forall>obs \<in> set (expand_obstacles obstacles (s_clearance st)).
                \<not> contains_point obs (fst (traj_points t ! i)) y))"
proof -
  let ?ms = "merge_obstacles (expand_obstacles obstacles (s_clearance st))"
  let ?es = "expand_obstacles obstacles (s_clearance st)"
  from plan_accepted[OF assms] obtain points where
    v: "validate_path_safety w ?ms tol (s_resolution st) points = Inr ()"
    and t: "traj_points t = points" by auto
  from v have vp: "validate_points w ?ms points = Inr ()"
    and vs: "validate_segments tol (s_resolution st) ?ms 0 points = Inr ()"
    by (auto simp: validate_path_safety_def split: sum.splits)
  have cov: "\<forall>e \<in> set ?es. \<exists>m \<in> set ?ms. rect_subset e m"
    using expanded_covered by blast
  have pts: "\<forall>p \<in> set points.
            0 \<le> fst p \<and> fst p \<le> wall_width w \<and> 0 \<le> snd p \<and> snd p \<le> wall_height w \<and>
            (\<forall>obs \<in> set ?es. \<not> contains_point obs (fst p) (snd p))"
  proof
    fix p assume "p \<in> set points"
    then have "is_valid w ?ms (fst p) (snd p)" using validate_points_ok[OF vp] by blast
    then show "0 \<le> fst p \<and> fst p \<le> wall_width w \<and> 0 \<le> snd p \<and> snd p \<le> wall_height w \<and>
            (\<forall>obs \<in> set ?es. \<not> contains_point obs (fst p) (snd p))"
      using cov contains_point_mono unfolding is_valid_iff by blast
  qed
  have segs: "\<not> segment_crosses_obstacle tol (s_resolution st) ?es
                (fst (points ! i)) (snd (points ! i)) (fst (points ! Suc i)) (snd (points ! Suc i))"
    if "Suc i < length points" for i
    using validate_segments_ok[OF vs that] segment_crosses_mono[OF cov] by blast
  have free: "\<forall>e \<in> set ?es. \<not> contains_point e (fst (points ! i)) (snd (points ! i))"
    if "i < length points" for i
    using pts that nth_mem by blast
  have hor: "\<not> contains_point obs x (snd (points ! i))"
    if "Suc i < length points" "0 < tol" "snd (points ! i) = snd (points ! Suc i)"
      "min (fst (points ! i)) (fst (points ! Suc i)) \<le> x"
      "x \<le> max (fst (points ! i)) (fst (points ! Suc i))" "obs \<in> set ?es" for i x obs
  proof (rule segment_horizontal_exact[OF _ that(2) _ _ that(4,5,6)])
    show "\<not> segment_crosses_obstacle tol (s_resolution st) ?es
      (fst (points ! i)) (snd (points ! i)) (fst (points ! Suc i)) (snd (points ! i))"
      using segs[OF that(1)] that(3) by simp
    show "\<forall>e \<in> set ?es. \<not> contains_point e (fst (points ! i)) (snd (points ! i))"
      using free[of i] that(1) by simp
    show "\<forall>e \<in> set ?es. \<not> contains_point e (fst (points ! Suc i)) (snd (points ! i))"
      using free[OF that(1)] that(3) by simp
  qed
  have ver: "\<not> contains_point obs (fst (points ! i)) y"
    if "Suc i < length points" "0 < tol" "fst (points ! i) = fst (points ! Suc i)"
      "tol \<le> \<bar>snd (points ! Suc i) - snd (points ! i)\<bar>"
      "min (snd (points ! i)) (snd (points ! Suc i)) \<le> y"
      "y \<le> max (snd (points ! i)) (snd (points ! Suc i))" "obs \<in> set ?es" for i y obs
  proof (rule segment_vertical_exact[OF _ that(2) that(4) _ _ that(5,6,7)])
    show "\<not> segment_crosses_obstacle tol (s_resolution st) ?es
      (fst (points ! i)) (snd (points ! i)) (fst (points ! i)) (snd (points ! Suc i))"
      using segs[OF that(1)] that(3) by simp
    show "\<forall>e \<in> set ?es. \<not> contains_point e (fst (points ! i)) (snd (points ! i))"
      using free[of i] that(1) by simp
    show "\<forall>e \<in> set ?es. \<not> contains_point e (fst (points ! i)) (snd (points ! Suc i))"
      using free[OF that(1)] that(3) by simp
  qed
  show ?thesis unfolding t using pts segs hor ver by blast
qed

text \<open>
  A path that jumps over an obstacle is refused: where an obstacle splits a zigzag row,
  the last point before it and the first one after it are consecutive, and the
  validation reports the segment between them.
\<close>

lemma split_valid: "valid_request example_wall [split_obstacle] example_settings"
  by (simp add: valid_request_def valid_obstacle_def valid_settings_def example_wall_def
      split_obstacle_def example_settings_def)

lemma split_fits: "\<not> exceeds_wall example_wall [split_obstacle]"
  by (simp add: exceeds_wall_def example_wall_def split_obstacle_def)

lemma split_merge:
  "merge_obstacles (expand_obstacles [split_obstacle] c) = expand_obstacles [split_obstacle] c"
  by (simp add: merge_obstacles_def find_overlapping_def expand_obstacles_def)

lemma split_generate:
  "generate example_wall [split_obstacle]
      (expand_obstacles [split_obstacle] (s_clearance example_settings)) example_settings tol =
      Some split_points"
  by (simp add: split_points_def generate_def example_settings_def plan_zigzag_def zigzag_rows.simps
      example_wall_def zigzag_row_def get_free_segments_in_row_def split_obstacle_def
      expand_obstacle_def expand_obstacles_def while_le.simps visit_def is_valid_def
      contains_point_def)

lemma split_validate:
  "0 < tol \<Longrightarrow> validate_path_safety example_wall
      (expand_obstacles [split_obstacle] (s_clearance example_settings)) tol
      (s_resolution example_settings) split_points =
      Inl (ValueError (Path_segment_crosses_obstacle 1))"
  by (simp add: split_points_def validate_path_safety_def example_settings_def example_wall_def
      split_obstacle_def expand_obstacles_def is_valid_def contains_point_def
      segment_crosses_obstacle_def intersects_horizontal_segment_def)

lemma jump_over_obstacle_is_refused:
  assumes "0 < tol"
  shows "plan example_wall [split_obstacle] example_settings max_points tol =
     Some (Inl (ValueError (Path_segment_crosses_obstacle 1)))"
  unfolding plan_def using assms
  by (simp add: split_valid split_fits split_merge split_generate split_validate Let_def)

subsection \<open>Counting steps\<close>

lemma steps_le_0: "steps_le step bound v = 0 \<longleftrightarrow> \<not> v \<le> bound"
  by (simp add: steps_le_def)

lemma steps_le_Suc:
  assumes "0 < step" "v \<le> bound"
  shows "steps_le step bound v = Suc (steps_le step bound (v + step))"
proof (cases "v + step \<le> bound")
  case True
  have "(bound - v) / step = (bound - (v + step)) / step + 1"
    using assms(1) by (simp add: field_simps)
  then have "\<lfloor>(bound - v) / step\<rfloor> = \<lfloor>(bound - (v + step)) / step\<rfloor> + 1" by simp
  moreover have "0 \<le> \<lfloor>(bound - (v + step)) / step\<rfloor>" using True assms(1) by simp
  ultimately show ?thesis using assms(2) True by (simp add: steps_le_def nat_add_distrib)
next
  case False
  then have "(bound - v) / step < 1" using assms(1) by (simp add: field_simps)
  moreover have "0 \<le> (bound - v) / step" using assms by simp
  ultimately have "\<lfloor>(bound - v) / step\<rfloor> = 0" by linarith
  then show ?thesis using assms(2) False by (simp add: steps_le_def)
qed

lemma steps_lt_0: "0 < step \<Longrightarrow> steps_lt step bound v = 0 \<longleftrightarrow> \<not> v < bound"
  by (auto simp: steps_lt_def divide_le_0_iff)

lemma steps_lt_Suc:
  assumes "0 < step" "v < bound"
  shows "steps_lt step bound v = Suc (steps_lt step bound (v + step))"
proof (cases "v + step < bound")
  case True
  have "(bound - v) / step = (bound - (v + step)) / step + 1"
    using assms(1) by (simp add: field_simps)
  then have "\<lceil>(bound - v) / step\<rceil> = \<lceil>(bound - (v + step)) / step\<rceil> + 1" by simp
  moreover have "0 < \<lceil>(bound - (v + step)) / step\<rceil>" using True assms(1) by simp
  ultimately show ?thesis using assms(2) True by (simp add: steps_lt_def nat_add_distrib)
next
  case False
  then have "(bound - v) / step \<le> 1" using assms(1) by (simp add: field_simps)
  moreover have "0 < (bound - v) / step" using assms by simp
  ultimately have "\<lceil>(bound - v) / step\<rceil> = 1" by linarith
  then show ?thesis using assms(2) False by (simp add: steps_lt_def)
qed

lemma steps_lt_iff:
  assumes "0 < step"
  shows "k < steps_lt step bound v \<longleftrightarrow> v + real k * step < bound"
proof (induction k arbitrary: v)
  case 0
  show ?case using steps_lt_0[OF assms, of bound v] by auto
next
  case (Suc k)
  show ?case
  proof (cases "v < bound")
    case True
    have "Suc k < steps_lt step bound v \<longleftrightarrow> k < steps_lt step bound (v + step)"
      using steps_lt_Suc[OF assms True] by simp
    also have "\<dots> \<longleftrightarrow> v + step + real k * step < bound" by (rule Suc.IH)
    finally show ?thesis by (simp add: algebra_simps)
  next
    case False
    have "0 \<le> real (Suc k) * step" using assms by simp
    then have "\<not> v + real (Suc k) * step < bound" using False by linarith
    then show ?thesis using False by (simp add: steps_lt_def)
  qed
qed

lemma steps_le_iff:
  assumes "0 < step"
  shows "k < steps_le step bound v \<longleftrightarrow> v + real k * step \<le> bound"
proof (induction k arbitrary: v)
  case 0
  show ?case using steps_le_0[of step bound v] by auto
next
  case (Suc k)
  show ?case
  proof (cases "v \<le> bound")
    case True
    have "Suc k < steps_le step bound v \<longleftrightarrow> k < steps_le step bound (v + step)"
      using steps_le_Suc[OF assms True] by simp
    also have "\<dots> \<longleftrightarrow> v + step + real k * step \<le> bound" by (rule Suc.IH)
    finally show ?thesis by (simp add: algebra_simps)
  next
    case False
    have "0 \<le> real (Suc k) * step" using assms by simp
    then have "\<not> v + real (Suc k) * step \<le> bound" using False by linarith
    then show ?thesis using False by (simp add: steps_le_def)
  qed
qed

lemma upt_shift: "[0..<Suc n] = 0 # map Suc [0..<n]"
  by (simp add: upt_conv_Cons map_Suc_upt del: upt_Suc)

subsection \<open>The stepping loops in closed form\<close>

lemma while_le_closed:
  assumes "0 < step"
  shows "while_le body step bound v points =
         Some (fold (\<lambda>i. body (v + real i * step)) [0..<steps_le step bound v] points)"
proof (induction "steps_le step bound v" arbitrary: v points)
  case 0
  then have "\<not> v \<le> bound" by (simp add: steps_le_0)
  then show ?case by (subst while_le.simps) (simp add: steps_le_def)
next
  case (Suc n)
  then have le: "v \<le> bound" using steps_le_0[of step bound v] by auto
  have n: "n = steps_le step bound (v + step)"
    using steps_le_Suc[OF assms le] Suc.hyps(2) by simp
  have "while_le body step bound (v + step) (body v points) =
     Some (fold (\<lambda>i. body (v + step + real i * step)) [0..<n] (body v points))"
    using Suc.hyps(1)[OF n] n by simp
  moreover have "fold (\<lambda>i. body (v + real i * step)) [0..<Suc n] points =
     fold (\<lambda>i. body (v + step + real i * step)) [0..<n] (body v points)"
    unfolding upt_shift by (simp add: fold_map comp_def algebra_simps)
  ultimately show ?case using le Suc.hyps(2)
    by (subst while_le.simps) (simp del: upt_Suc)
qed

lemma while_ge_closed:
  assumes "0 < step"
  shows "while_ge body step bound v points =
         Some (fold (\<lambda>i. body (v - real i * step)) [0..<steps_le step v bound] points)"
proof (induction "steps_le step v bound" arbitrary: v points)
  case 0
  then have "\<not> bound \<le> v" by (simp add: steps_le_0)
  then show ?case by (subst while_ge.simps) (simp add: steps_le_def)
next
  case (Suc n)
  then have le: "bound \<le> v" using steps_le_0[of step v bound] by auto
  have sh: "steps_le step (v - step) bound = steps_le step v (bound + step)"
    by (simp add: steps_le_def algebra_simps)
  have n: "n = steps_le step (v - step) bound"
    using steps_le_Suc[OF assms le] Suc.hyps(2) sh by simp
  have "while_ge body step bound (v - step) (body v points) =
     Some (fold (\<lambda>i. body (v - step - real i * step)) [0..<n] (body v points))"
    using Suc.hyps(1)[OF n] n by simp
  moreover have "fold (\<lambda>i. body (v - real i * step)) [0..<Suc n] points =
     fold (\<lambda>i. body (v - step - real i * step)) [0..<n] (body v points)"
    unfolding upt_shift by (simp add: fold_map comp_def algebra_simps)
  ultimately show ?case using le Suc.hyps(2)
    by (subst while_ge.simps) (simp del: upt_Suc)
qed

lemma while_gt_closed:
  assumes "0 < step"
  shows "while_gt body step bound v points =
         Some (fold (\<lambda>i. body (v - real i * step)) [0..<steps_lt step v bound] points)"
proof (induction "steps_lt step v bound" arbitrary: v points)
  case 0
  then have "\<not> bound < v" using steps_lt_0[OF assms, of v bound] by simp
  then show ?case by (subst while_gt.simps) (simp add: steps_lt_def)
next
  case (Suc n)
  then have le: "bound < v" using steps_lt_0[OF assms, of v bound] by auto
  have sh: "steps_lt step (v - step) bound = steps_lt step v (bound + step)"
    by (simp add: steps_lt_def algebra_simps)
  have n: "n = steps_lt step (v - step) bound"
    using steps_lt_Suc[OF assms le] Suc.hyps(2) sh by simp
  have "while_gt body step bound (v - step) (body v points) =
     Some (fold (\<lambda>i. body (v - step - real i * step)) [0..<n] (body v points))"
    using Suc.hyps(1)[OF n] n by simp
  moreover have "fold (\<lambda>i. body (v - real i * step)) [0..<Suc n] points =
     fold (\<lambda>i. body (v - step - real i * step)) [0..<n] (body v points)"
    unfolding upt_shift by (simp add: fold_map comp_def algebra_simps)
  ultimately show ?case using le Suc.hyps(2)
    by (subst while_gt.simps) (simp del: upt_Suc)
qed

subsection \<open>The row loop and the layer loops in closed form\<close>

lemma map_upt_Suc_shift: "map f [0..<Suc n] = f 0 # map (\<lambda>k. f (Suc k)) [0..<n]"
  unfolding upt_shift by (simp add: comp_def)

lemma zigzag_rows_closed:
  assumes "0 < spacing"
  shows "zigzag_rows row height spacing y direction points =
         run_rows row
           (map (\<lambda>k. (y + real k * spacing, direction * (- 1) ^ k))
              [0..<steps_lt spacing height y]) points"
proof (induction "steps_lt spacing height y" arbitrary: y direction points)
  case 0
  then have "\<not> y < height" using steps_lt_0[OF assms, of height y] by simp
  then show ?case by (subst zigzag_rows.simps) (simp add: steps_lt_def)
next
  case (Suc n)
  then have lt: "y < height" using steps_lt_0[OF assms, of height y] by auto
  have n: "n = steps_lt spacing height (y + spacing)"
    using steps_lt_Suc[OF assms lt] Suc.hyps(2) by simp
  have IH: "zigzag_rows row height spacing (y + spacing) (direction * (- 1)) =
       run_rows row (map (\<lambda>k. (y + real (Suc k) * spacing, direction * (- 1) ^ Suc k)) [0..<n])"
    using Suc.hyps(1)[OF n] n by (intro ext) (simp add: algebra_simps)
  have "run_rows row (map (\<lambda>k. (y + real k * spacing, direction * (- 1) ^ k)) [0..<Suc n]) points =
        Option.bind (row y direction points)
          (run_rows row (map (\<lambda>k. (y + real (Suc k) * spacing, direction * (- 1) ^ Suc k)) [0..<n]))"
    unfolding map_upt_Suc_shift by simp
  then show ?case using lt IH Suc.hyps(2)
    by (subst zigzag_rows.simps) (simp del: upt_Suc)
qed

lemma spiral_layers_closed:
  assumes "0 < spacing" "0 \<le> resolution" "0 \<le> offset"
  shows "spiral_layers layer w spacing resolution offset points =
         run_layers layer
           (map (\<lambda>k. layer_rect w (offset + real k * spacing))
              [0..<steps_lt spacing ((min (wall_width w) (wall_height w) - resolution) / 2) offset])
           points"
  using assms(3)
proof (induction "steps_lt spacing ((min (wall_width w) (wall_height w) - resolution) / 2) offset"
    arbitrary: offset points)
  case 0
  then have "\<not> offset < (min (wall_width w) (wall_height w) - resolution) / 2"
    using steps_lt_0[OF assms(1)] by simp
  then have "wall_width w - 2 * offset \<le> resolution \<or> wall_height w - 2 * offset \<le> resolution"
    by (auto simp: min_def split: if_splits)
  then show ?case using 0(1)
    by (subst spiral_layers.simps) (auto simp: layer_rect_def)
next
  case (Suc n)
  let ?b = "(min (wall_width w) (wall_height w) - resolution) / 2"
  from Suc have lt: "offset < ?b" using steps_lt_0[OF assms(1), of ?b offset] by auto
  then have nd: "\<not> (wall_width w - 2 * offset \<le> resolution \<or> wall_height w - 2 * offset \<le> resolution)"
    by (auto simp: min_def split: if_splits)
  have guard: "offset < max (wall_width w) (wall_height w)"
    using nd assms(2) Suc.prems by (auto simp: max_def)
  have n: "n = steps_lt spacing ?b (offset + spacing)"
    using steps_lt_Suc[OF assms(1) lt] Suc.hyps(2) by simp
  have "0 \<le> offset + spacing" using Suc.prems assms(1) by simp
  from Suc.hyps(1)[OF n this]
  have IH: "spiral_layers layer w spacing resolution (offset + spacing) =
       run_layers layer (map (\<lambda>k. layer_rect w (offset + real (Suc k) * spacing)) [0..<n])"
    using n by (intro ext) (simp add: algebra_simps)
  have "run_layers layer (map (\<lambda>k. layer_rect w (offset + real k * spacing)) [0..<Suc n]) points =
        Option.bind (layer (layer_rect w offset) points)
          (run_layers layer (map (\<lambda>k. layer_rect w (offset + real (Suc k) * spacing)) [0..<n]))"
    unfolding map_upt_Suc_shift by simp
  then show ?case using guard nd IH Suc.hyps(2)
    by (subst spiral_layers.simps) (simp add: layer_rect_def del: upt_Suc)
qed

lemma spiral_layers_spec_closed:
  assumes "0 < spacing" "0 \<le> resolution"
  shows "spiral_layers_spec layer w spacing resolution offset points =
         run_layers layer
           (map (\<lambda>k. layer_rect w (offset + real k * spacing))
              [0..<steps_lt spacing ((min (wall_width w) (wall_height w) - resolution) / 2) offset])
           points"
proof (induction "steps_lt spacing ((min (wall_width w) (wall_height w) - resolution) / 2) offset"
    arbitrary: offset points)
  case 0
  then have "\<not> offset < (min (wall_width w) (wall_height w) - resolution) / 2"
    using steps_lt_0[OF assms(1)] by simp
  then have "wall_width w - 2 * offset \<le> resolution \<or> wall_height w - 2 * offset \<le> resolution"
    by (auto simp: min_def split: if_splits)
  then show ?case using 0(1)
    by (subst spiral_layers_spec.simps) (auto simp: layer_rect_def)
next
  case (Suc n)
  let ?b = "(min (wall_width w) (wall_height w) - resolution) / 2"
  from Suc have lt: "offset < ?b" using steps_lt_0[OF assms(1), of ?b offset] by auto
  then have nd: "\<not> (wall_width w - 2 * offset \<le> resolution \<or> wall_height w - 2 * offset \<le> resolution)"
    by (auto simp: min_def split: if_splits)
  have guard: "offset < min (wall_width w) (wall_height w) / 2"
    using lt assms(2) by (auto simp: min_def split: if_splits)
  have n: "n = steps_lt spacing ?b (offset + spacing)"
    using steps_lt_Suc[OF assms(1) lt] Suc.hyps(2) by simp
  from Suc.hyps(1)[OF n]
  have IH: "spiral_layers_spec layer w spacing resolution (offset + spacing) =
       run_layers layer (map (\<lambda>k. layer_rect w (offset + real (Suc k) * spacing)) [0..<n])"
    using n by (intro ext) (simp add: algebra_simps)
  have "run_layers layer (map (\<lambda>k. layer_rect w (offset + real k * spacing)) [0..<Suc n]) points =
        Option.bind (layer (layer_rect w offset) points)
          (run_layers layer (map (\<lambda>k. layer_rect w (offset + real (Suc k) * spacing)) [0..<n]))"
    unfolding map_upt_Suc_shift by simp
  then show ?case using guard nd IH Suc.hyps(2)
    by (subst spiral_layers_spec.simps) (simp add: layer_rect_def del: upt_Suc)
qed

lemma direction_parity: "(1::int) * (- 1) ^ k = (if even k then 1 else - 1)"
  by simp

subsection \<open>Scenario A, generated\<close>

lemma fold_visit_valid:
  "(\<And>i. i < n \<Longrightarrow> is_valid w ex (f i) y) \<Longrightarrow>
   fold (\<lambda>i. visit w ex (f i) y) [0..<n] points = points @ map (\<lambda>i. (f i, y)) [0..<n]"
  by (induction n) (simp_all add: visit_def)

lemma is_valid_no_obstacles:
  "is_valid w [] x y \<longleftrightarrow> 0 \<le> x \<and> x \<le> wall_width w \<and> 0 \<le> y \<and> y \<le> wall_height w"
  by (simp add: is_valid_def)

lemma scenario_ltr:
  assumes "0 \<le> y" "y \<le> 5"
  shows "zigzag_row scenario_wall [] [] c 0.01 y 1 points =
         Some (points @ map (\<lambda>i. (real i * 0.01, y)) [0..<501])"
proof -
  have v: "is_valid scenario_wall [] (0 + real i * 0.01) y" if "i < 501" for i
    using that assms by (simp add: is_valid_no_obstacles scenario_wall_def)
  have s: "steps_le 0.01 5 0 = 501" by (simp add: steps_le_def)
  have "while_le (\<lambda>x. visit scenario_wall [] x y) 0.01 5 0 points =
        Some (fold (\<lambda>i. visit scenario_wall [] (0 + real i * 0.01) y) [0..<steps_le 0.01 5 0] points)"
    by (rule while_le_closed) simp
  also have "\<dots> = Some (points @ map (\<lambda>i. (0 + real i * 0.01, y)) [0..<501])"
    unfolding s by (simp only: fold_visit_valid[OF v])
  finally have "while_le (\<lambda>x. visit scenario_wall [] x y) 0.01 5 0 points =
        Some (points @ map (\<lambda>i. (real i * 0.01, y)) [0..<501])" by simp
  then show ?thesis
    by (simp add: zigzag_row_def get_free_segments_in_row_def scenario_wall_def)
qed

lemma rev_row:
  "map (\<lambda>i. (5 - real i * 0.01, y)) [0..<501] = rev (map (\<lambda>i. (real i * 0.01, y :: real)) [0..<501])"
proof (rule nth_equalityI)
  show "length (map (\<lambda>i. (5 - real i * 0.01, y)) [0..<501]) =
        length (rev (map (\<lambda>i. (real i * 0.01, y)) [0..<501]))" by simp
next
  fix i assume "i < length (map (\<lambda>i. (5 - real i * 0.01, y)) [0..<501])"
  then have i: "i < 501" by simp
  then have "real (500 - i) = 500 - real i" by (simp add: of_nat_diff)
  then show "map (\<lambda>i. (5 - real i * 0.01, y)) [0..<501] ! i =
        rev (map (\<lambda>i. (real i * 0.01, y)) [0..<501]) ! i"
    using i by (simp add: rev_nth algebra_simps)
qed

lemma scenario_rtl:
  assumes "0 \<le> y" "y \<le> 5"
  shows "zigzag_row scenario_wall [] [] c 0.01 y (- 1) points =
         Some (points @ rev (map (\<lambda>i. (real i * 0.01, y)) [0..<501]))"
proof -
  have v: "is_valid scenario_wall [] (5 - real i * 0.01) y" if "i < 501" for i
    using that assms by (simp add: is_valid_no_obstacles scenario_wall_def)
  have s: "steps_le 0.01 5 0 = 501" by (simp add: steps_le_def)
  have "while_ge (\<lambda>x. visit scenario_wall [] x y) 0.01 0 5 points =
        Some (fold (\<lambda>i. visit scenario_wall [] (5 - real i * 0.01) y) [0..<steps_le 0.01 5 0] points)"
    by (rule while_ge_closed) simp
  also have "\<dots> = Some (points @ map (\<lambda>i. (5 - real i * 0.01, y)) [0..<501])"
    unfolding s by (simp only: fold_visit_valid[OF v])
  finally have "while_ge (\<lambda>x. visit scenario_wall [] x y) 0.01 0 5 points =
        Some (points @ rev (map (\<lambda>i. (real i * 0.01, y)) [0..<501]))"
    unfolding rev_row .
  then show ?thesis
    by (simp add: zigzag_row_def get_free_segments_in_row_def scenario_wall_def)
qed

lemma run_rows_append:
  assumes "\<And>y d points. (y, d) \<in> set rows \<Longrightarrow> row y d points = Some (points @ g (y, d))"
  shows "run_rows row rows points = Some (points @ concat (map g rows))"
  using assms
proof (induction rows arbitrary: points)
  case Nil
  then show ?case by simp
next
  case (Cons a rows)
  obtain y d where a: "a = (y, d)" by (cases a)
  have "row y d points = Some (points @ g (y, d))" using Cons.prems a by simp
  moreover have "run_rows row rows (points @ g (y, d)) = Some ((points @ g (y, d)) @ concat (map g rows))"
    using Cons.IH Cons.prems by simp
  ultimately show ?case using a by simp
qed

lemma scenario_generated:
  "plan_zigzag scenario_wall [] [] 0.2 c 0.01 = Some scenario_points"
proof -
  let ?rows = "map (\<lambda>k. (0.2 / 2 + real k * 0.2, if even k then 1 else - 1 :: int)) [0..<25]"
  let ?g = "\<lambda>(y, d). if d = (1::int) then map (\<lambda>i. (real i * 0.01, y)) [0..<501]
                      else rev (map (\<lambda>i. (real i * 0.01, y)) [0..<501])"
  have n: "steps_lt 0.2 (wall_height scenario_wall) (0.2 / 2) = 25"
    by (simp add: steps_lt_def scenario_wall_def)
  have "plan_zigzag scenario_wall [] [] 0.2 c 0.01 =
        run_rows (zigzag_row scenario_wall [] [] c 0.01) ?rows []"
    using zigzag_rows_closed[of "0.2" "zigzag_row scenario_wall [] [] c 0.01" "wall_height scenario_wall" "0.2 / 2" 1 "[]"]
    unfolding n plan_zigzag_def direction_parity by simp
  also have "\<dots> = Some ([] @ concat (map ?g ?rows))"
  proof (rule run_rows_append)
    fix y d points assume "(y, d) \<in> set ?rows"
    then obtain k where k: "k < 25" "y = 0.2 / 2 + real k * 0.2" "d = (if even k then 1 else - 1)"
      by auto
    then have "real k \<le> 24" by simp
    then have y: "0 \<le> y" "y \<le> 5" using k(2) by simp_all
    show "zigzag_row scenario_wall [] [] c 0.01 y d points = Some (points @ ?g (y, d))"
      using scenario_ltr[OF y] scenario_rtl[OF y] k(3) by (auto split: if_splits)
  qed
  also have "concat (map ?g ?rows) = scenario_points"
    unfolding scenario_points_def map_map
    by (rule arg_cong[where f = concat], rule map_cong) (auto simp: scenario_row_def Let_def)
  finally show ?thesis by simp
qed

lemma scenario_row_length: "length (scenario_row k) = 501"
  by (simp add: scenario_row_def Let_def)

lemma scenario_length: "length scenario_points = 12525"
  by (simp add: scenario_points_def length_concat comp_def scenario_row_length sum_list_triv)

subsection \<open>Loops whose body changes nothing, and loops that return\<close>

lemma fold_id: "(\<And>i p. body i p = p) \<Longrightarrow> fold body xs points = points"
  by (induction xs arbitrary: points) simp_all

lemma while_le_id:
  "0 < step \<Longrightarrow> (\<And>v p. body v p = p) \<Longrightarrow> while_le body step bound v points = Some points"
  by (simp add: while_le_closed fold_id)

lemma while_ge_id:
  "0 < step \<Longrightarrow> (\<And>v p. body v p = p) \<Longrightarrow> while_ge body step bound v points = Some points"
  by (simp add: while_ge_closed fold_id)

lemma while_gt_id:
  "0 < step \<Longrightarrow> (\<And>v p. body v p = p) \<Longrightarrow> while_gt body step bound v points = Some points"
  by (simp add: while_gt_closed fold_id)

lemma run_rows_id:
  "(\<And>y d p. row y d p = Some p) \<Longrightarrow> run_rows row rows points = Some points"
  by (induction rows arbitrary: points) auto

lemma run_layers_id:
  "(\<And>rect p. layer rect p = Some p) \<Longrightarrow> run_layers layer rects points = Some points"
  by (induction rects arbitrary: points) auto


lemma run_layers_total:
  "(\<And>rect p. \<exists>q. layer rect p = Some q) \<Longrightarrow> \<exists>q. run_layers layer rects points = Some q"
proof (induction rects arbitrary: points)
  case Nil
  then show ?case by simp
next
  case (Cons rect rects)
  obtain q where "layer rect points = Some q" using Cons.prems by blast
  then show ?case using Cons.IH[OF Cons.prems, of q] by simp
qed

lemma scan_left_to_right_id:
  "0 < resolution \<Longrightarrow> (\<And>x y. \<not> is_valid w ex x y) \<Longrightarrow>
   scan_left_to_right w ex resolution y segments points = Some points"
  by (induction segments arbitrary: points) (auto simp: while_le_id visit_def)

lemma scan_right_to_left_id:
  "0 < resolution \<Longrightarrow> (\<And>x y. \<not> is_valid w ex x y) \<Longrightarrow>
   scan_right_to_left w ex resolution y segments points = Some points"
  by (induction segments arbitrary: points) (auto simp: while_ge_id visit_def)



lemma trace_layer_id:
  "0 < resolution \<Longrightarrow> (\<And>x y. \<not> is_valid w ex x y) \<Longrightarrow>
   trace_layer w ex tol resolution rect points = Some points"
  by (simp add: trace_layer_def while_le_id while_ge_id while_gt_id spiral_visit_def)

lemma trace_layer_total:
  "0 < resolution \<Longrightarrow> \<exists>q. trace_layer w ex tol resolution rect points = Some q"
  by (simp add: trace_layer_def while_le_closed while_ge_closed while_gt_closed)

lemma generate_nothing_valid:
  assumes "0 < s_spacing st" "0 < s_resolution st" "\<And>x y. \<not> is_valid w ex x y"
  shows "generate w obstacles ex st tol = Some []"
proof (cases "s_pattern st")
  case Zigzag
  have "zigzag_row w obstacles ex (s_clearance st) (s_resolution st) y d p = Some p" for y d p
    using assms(2,3) by (simp add: zigzag_row_def Let_def scan_left_to_right_id scan_right_to_left_id)
  then show ?thesis using Zigzag assms(1)
    by (simp add: generate_def plan_zigzag_def zigzag_rows_closed run_rows_id)
next
  case Spiral
  have "trace_layer w ex tol (s_resolution st) rect p = Some p" for rect p
    using assms(2,3) by (simp add: trace_layer_id)
  then show ?thesis using Spiral assms(1,2)
    by (simp add: generate_def plan_spiral_def spiral_layers_closed run_layers_id)
qed



subsection \<open>Scenario A, planned\<close>

lemma validate_points_no_obstacles:
  "(\<And>p. p \<in> set points \<Longrightarrow> 0 \<le> fst p \<and> fst p \<le> wall_width w \<and> 0 \<le> snd p \<and> snd p \<le> wall_height w)
   \<Longrightarrow> validate_points w [] points = Inr ()"
  by (induction points) (simp_all add: is_valid_no_obstacles)

lemma validate_segments_no_obstacles: "validate_segments tol res [] k points = Inr ()"
  by (induction tol res "[] :: rectangle list" k points rule: validate_segments.induct)
     (simp_all add: segment_crosses_obstacle_def)

lemma scenario_points_in_wall:
  assumes "p \<in> set scenario_points"
  shows "0 \<le> fst p \<and> fst p \<le> 5 \<and> 0 \<le> snd p \<and> snd p \<le> 5"
proof -
  from assms obtain k i where k: "k < 25" and i: "i < 501"
    and p: "p = (real i * 0.01, 0.1 + real k * 0.2)"
    by (auto simp: scenario_points_def scenario_row_def Let_def split: if_splits)
  have "real k \<le> 24" "real i \<le> 500" using k i by simp_all
  then show ?thesis using p by simp
qed

lemma scenario_plan:
  "plan scenario_wall [] scenario_settings max_points tol =
     (if max_points < 12525 then Some (Inl (ValueError (Trajectory_too_large 12525)))
      else Some (Inr \<lparr>traj_points = scenario_points,
                      length_m = calculate_path_length scenario_points,
                      duration_s = calculate_path_length scenario_points / 0.1,
                      point_count = 12525\<rparr>))"
proof -
  have g: "generate scenario_wall [] [] scenario_settings tol = Some scenario_points"
    using scenario_generated[of "0.02"] by (simp add: generate_def scenario_settings_def)
  have v: "validate_path_safety scenario_wall [] tol (s_resolution scenario_settings) scenario_points = Inr ()"
    using scenario_points_in_wall
    by (simp add: validate_path_safety_def validate_segments_no_obstacles
        validate_points_no_obstacles scenario_wall_def)
  have ne: "scenario_points \<noteq> []" using scenario_length by auto
  have sp: "s_speed scenario_settings = 0.1" by (simp add: scenario_settings_def)
  have c: "valid_request scenario_wall [] scenario_settings" "\<not> exceeds_wall scenario_wall []"
    by (simp_all add: valid_request_def valid_settings_def exceeds_wall_def scenario_wall_def
        scenario_settings_def)
  show ?thesis
    by (simp add: plan_def c merge_obstacles_def expand_obstacles_def g v ne sp scenario_length
        estimate_duration_def)
qed

subsection \<open>Claim C4\<close>

text \<open>
  Claim C4. With a positive spacing and a resolution that is not negative, the README's
  loop, which runs while the offset is below \<open>max(W, H)\<close> and breaks at a layer not
  wider or not higher than the resolution, is the loop of the claim, which runs while
  the offset is below \<open>min(W, H) / 2\<close> and breaks at the same test: started at
  \<open>spacing / 2\<close> they return the same for every layer body. The planner traces the
  layers at the offsets \<open>spacing / 2 + k * spacing\<close> for \<open>k\<close> below a count \<open>K\<close> in
  this order, a layer is traced if and only if its rectangle is wider and higher than
  the resolution, so that the loop ends at the first layer that is not, every traced
  offset is below \<open>min(W, H) / 2\<close>, and with a positive resolution the planner returns.
\<close>

theorem spiral_loop_as_specified:
  assumes "0 < spacing" and "0 \<le> resolution"
  shows "(\<forall>layer points.
            spiral_layers layer w spacing resolution (spacing / 2) points =
            spiral_layers_spec layer w spacing resolution (spacing / 2) points) \<and>
         plan_spiral w ex tol spacing resolution =
            spiral_layers_spec (trace_layer w ex tol resolution) w spacing resolution
              (spacing / 2) [] \<and>
         plan_spiral w ex tol spacing resolution =
            run_layers (trace_layer w ex tol resolution)
              (map (\<lambda>k. layer_rect w (spacing / 2 + real k * spacing))
                 [0..<steps_lt spacing ((min (wall_width w) (wall_height w) - resolution) / 2)
                        (spacing / 2)]) [] \<and>
         (\<forall>k. k < steps_lt spacing ((min (wall_width w) (wall_height w) - resolution) / 2)
                      (spacing / 2) \<longleftrightarrow>
               \<not> (rect_width (layer_rect w (spacing / 2 + real k * spacing)) \<le> resolution \<or>
                  rect_height (layer_rect w (spacing / 2 + real k * spacing)) \<le> resolution)) \<and>
         (\<forall>k. k < steps_lt spacing ((min (wall_width w) (wall_height w) - resolution) / 2)
                      (spacing / 2) \<longrightarrow>
               spacing / 2 + real k * spacing < min (wall_width w) (wall_height w) / 2) \<and>
         (0 < resolution \<longrightarrow> (\<exists>points. plan_spiral w ex tol spacing resolution = Some points))"
proof -
  let ?b = "(min (wall_width w) (wall_height w) - resolution) / 2"
  have h: "0 \<le> spacing / 2" using assms(1) by simp
  have eq: "spiral_layers layer w spacing resolution (spacing / 2) points =
            spiral_layers_spec layer w spacing resolution (spacing / 2) points" for layer points
    unfolding spiral_layers_closed[OF assms h] spiral_layers_spec_closed[OF assms] ..
  have closed: "plan_spiral w ex tol spacing resolution =
        run_layers (trace_layer w ex tol resolution)
          (map (\<lambda>k. layer_rect w (spacing / 2 + real k * spacing))
             [0..<steps_lt spacing ?b (spacing / 2)]) []"
    unfolding plan_spiral_def by (rule spiral_layers_closed[OF assms h])
  have iff: "k < steps_lt spacing ?b (spacing / 2) \<longleftrightarrow> spacing / 2 + real k * spacing < ?b" for k
    by (rule steps_lt_iff[OF assms(1)])
  have deg: "\<forall>k. k < steps_lt spacing ?b (spacing / 2) \<longleftrightarrow>
            \<not> (rect_width (layer_rect w (spacing / 2 + real k * spacing)) \<le> resolution \<or>
               rect_height (layer_rect w (spacing / 2 + real k * spacing)) \<le> resolution)"
    unfolding iff by (auto simp: layer_rect_def min_def split: if_splits)
  have below: "\<forall>k. k < steps_lt spacing ?b (spacing / 2) \<longrightarrow>
            spacing / 2 + real k * spacing < min (wall_width w) (wall_height w) / 2"
    unfolding iff using assms(2) by auto
  have total: "\<exists>points. plan_spiral w ex tol spacing resolution = Some points" if "0 < resolution"
    unfolding closed using trace_layer_total[OF that] by (intro run_layers_total) blast
  show ?thesis using eq closed deg below total by (simp add: plan_spiral_def)
qed

text \<open>
  A wall of 0.25 by 0.25 with spacing 0.125 and resolution 0.0625: the layer at offset
  0.0625 is 0.125 wide and is traced; at offset 0.1875 the loop ends.
\<close>

theorem spiral_loop_as_specified_witness:
  "((0::real) < 0.125 \<and> (0::real) \<le> 0.0625) \<and>
   steps_lt 0.125 ((min (wall_width small_wall) (wall_height small_wall) - 0.0625) / 2) (0.125 / 2) = 1 \<and>
   plan_spiral small_wall [] 0.001 0.125 0.0625 =
     Some [(0.0625, 0.0625), (0.125, 0.0625), (0.1875, 0.0625), (0.1875, 0.125),
           (0.1875, 0.1875), (0.125, 0.1875), (0.0625, 0.1875)] \<and>
   spiral_layers_spec (trace_layer small_wall [] 0.001 0.0625) small_wall 0.125 0.0625 (0.125 / 2) [] =
     Some [(0.0625, 0.0625), (0.125, 0.0625), (0.1875, 0.0625), (0.1875, 0.125),
           (0.1875, 0.1875), (0.125, 0.1875), (0.0625, 0.1875)]"
proof -
  have c: "\<lceil>(1::real) / 4\<rceil> = 1" by (simp add: ceiling_eq_iff)
  have n: "steps_lt 0.125 ((min (wall_width small_wall) (wall_height small_wall) - 0.0625) / 2) (0.125 / 2) = 1"
    by (simp add: steps_lt_def small_wall_def c)
  have a: "(0::real) < 0.125" "(0::real) \<le> 0.0625" by simp_all
  note inst = spiral_loop_as_specified[OF a, where w = small_wall and ex = "[]" and tol = "0.001"]
  from inst have e: "plan_spiral small_wall [] 0.001 0.125 0.0625 =
      spiral_layers_spec (trace_layer small_wall [] 0.001 0.0625) small_wall 0.125 0.0625 (0.125 / 2) []"
    by blast
  from inst have "plan_spiral small_wall [] 0.001 0.125 0.0625 =
      run_layers (trace_layer small_wall [] 0.001 0.0625)
        (map (\<lambda>k. layer_rect small_wall (0.125 / 2 + real k * 0.125))
           [0..<steps_lt 0.125 ((min (wall_width small_wall) (wall_height small_wall) - 0.0625) / 2) (0.125 / 2)]) []"
    by blast
  also have "\<dots> = Some [(0.0625, 0.0625), (0.125, 0.0625), (0.1875, 0.0625), (0.1875, 0.125),
           (0.1875, 0.1875), (0.125, 0.1875), (0.0625, 0.1875)]"
    unfolding n
    by (simp add: trace_layer_def layer_rect_def small_wall_def while_le.simps while_ge.simps
        while_gt.simps spiral_visit_def is_valid_def crosses_obstacle_def
        segment_crosses_obstacle_def last_point_def)
  finally have p: "plan_spiral small_wall [] 0.001 0.125 0.0625 =
     Some [(0.0625, 0.0625), (0.125, 0.0625), (0.1875, 0.0625), (0.1875, 0.125),
           (0.1875, 0.1875), (0.125, 0.1875), (0.0625, 0.1875)]" .
  have q: "spiral_layers_spec (trace_layer small_wall [] 0.001 0.0625) small_wall 0.125 0.0625 (0.125 / 2) [] =
     Some [(0.0625, 0.0625), (0.125, 0.0625), (0.1875, 0.0625), (0.1875, 0.125),
           (0.1875, 0.1875), (0.125, 0.1875), (0.0625, 0.1875)]"
    unfolding e[symmetric] by (rule p)
  from a n p q show ?thesis by blast
qed

subsection \<open>The points of a row\<close>

lemma fold_visit_filter:
  "fold (\<lambda>i. visit w ex (f i) y) xs points =
     points @ map (\<lambda>x. (x, y)) (filter (\<lambda>x. is_valid w ex x y) (map f xs))"
  by (induction xs arbitrary: points) (simp_all add: visit_def)

lemma scan_left_to_right_closed:
  assumes "0 < resolution"
  shows "scan_left_to_right w ex resolution y segments points =
           Some (points @ row_left_to_right w ex resolution y segments)"
proof (induction segments arbitrary: points)
  case Nil
  then show ?case by (simp add: row_left_to_right_def)
next
  case (Cons seg segments)
  obtain seg_start seg_end where seg: "seg = (seg_start, seg_end)" by (cases seg)
  show ?case unfolding seg
    by (simp add: while_le_closed[OF assms] fold_visit_filter Cons.IH)
       (simp add: row_left_to_right_def)
qed

lemma scan_right_to_left_closed:
  assumes "0 < resolution"
  shows "scan_right_to_left w ex resolution y segments points =
           Some (points @ row_right_to_left w ex resolution y segments)"
proof (induction segments arbitrary: points)
  case Nil
  then show ?case by (simp add: row_right_to_left_def)
next
  case (Cons seg segments)
  obtain seg_start seg_end where seg: "seg = (seg_start, seg_end)" by (cases seg)
  show ?case unfolding seg
    by (simp add: while_ge_closed[OF assms] fold_visit_filter Cons.IH)
       (simp add: row_right_to_left_def)
qed

lemma zigzag_row_closed:
  assumes "0 < resolution"
  shows "zigzag_row w obstacles ex clearance resolution y direction points =
           Some (points @
             (if direction = 1
              then row_left_to_right w ex resolution y
                     (get_free_segments_in_row w y obstacles clearance)
              else row_right_to_left w ex resolution y
                     (rev (get_free_segments_in_row w y obstacles clearance))))"
  by (simp add: zigzag_row_def Let_def scan_left_to_right_closed[OF assms]
      scan_right_to_left_closed[OF assms])

lemma run_rows_concat:
  "run_rows (\<lambda>y d p. Some (p @ g y d)) rows points =
     Some (points @ concat (map (\<lambda>(y, d). g y d) rows))"
  by (induction rows arbitrary: points) auto

lemma row_points:
  "p \<in> set (row_left_to_right w ex resolution y segments) \<Longrightarrow> snd p = y \<and> is_valid w ex (fst p) y"
  "p \<in> set (row_right_to_left w ex resolution y segments) \<Longrightarrow> snd p = y \<and> is_valid w ex (fst p) y"
  by (auto simp: row_left_to_right_def row_right_to_left_def)

subsection \<open>The order of a row\<close>

lemma ordered_from_mono: "ordered_from lo segments \<Longrightarrow> lo' \<le> lo \<Longrightarrow> ordered_from lo' segments"
  by (cases segments) auto

lemma split_segments_ordered:
  assumes "0 \<le> rect_width obs"
  shows "ordered_from lo segments \<Longrightarrow> ordered_from lo (split_segments obs segments)"
proof (induction segments arbitrary: lo)
  case Nil
  then show ?case by simp
next
  case (Cons seg segments)
  obtain s e where seg: "seg = (s, e)" by (cases seg)
  from Cons.prems have b: "lo \<le> s" "s \<le> e" and rest: "ordered_from e segments"
    by (simp_all add: seg)
  have r: "ordered_from e (split_segments obs segments)" by (rule Cons.IH[OF rest])
  have r1: "ordered_from lo (split_segments obs segments)"
    using ordered_from_mono[OF r] b by simp
  have r2: "ordered_from (rect_x obs) (split_segments obs segments)"
    if "\<not> rect_x obs > e" using ordered_from_mono[OF r] that by simp
  show ?case unfolding seg using b r r1 r2 assms by auto
qed

lemma free_segments_loop_ordered:
  assumes "\<forall>ob \<in> set obstacles. 0 \<le> rect_width ob + 2 * clearance"
  shows "ordered_from lo segments \<Longrightarrow> ordered_from lo (free_segments_loop y clearance obstacles segments)"
  using assms
proof (induction obstacles arbitrary: segments)
  case Nil
  then show ?case by simp
next
  case (Cons ob obstacles)
  have "0 \<le> rect_width (expand_obstacle ob clearance)"
    using Cons.prems(2) by (simp add: expand_obstacle_def)
  from split_segments_ordered[OF this Cons.prems(1)] Cons.IH Cons.prems
  show ?case by (simp add: Let_def)
qed

lemma get_free_segments_ordered:
  assumes "0 \<le> wall_width w" and "\<forall>ob \<in> set obstacles. 0 \<le> rect_width ob + 2 * clearance"
  shows "ordered_from 0 (get_free_segments_in_row w y obstacles clearance)"
  unfolding get_free_segments_in_row_def
  using assms(1) by (intro free_segments_loop_ordered[OF assms(2)]) simp

lemma sorted_steps_up:
  assumes "0 < resolution"
  shows "sorted (map (\<lambda>i. s + real i * resolution) [0..<n])"
  unfolding sorted_map using assms
  by (intro sorted_wrt_mono_rel[OF _ sorted_upt]) (simp add: mult_right_mono)

lemma sorted_steps_down:
  assumes "0 < resolution"
  shows "sorted (rev (map (\<lambda>i. e - real i * resolution) [0..<n]))"
  unfolding sorted_wrt_rev sorted_wrt_map using assms
  by (intro sorted_wrt_mono_rel[OF _ sorted_upt]) (simp add: mult_right_mono)

lemma segment_xs:
  assumes "0 < resolution" and "i < steps_le resolution e s"
  shows "s \<le> s + real i * resolution" "s + real i * resolution \<le> e"
        "s \<le> e - real i * resolution" "e - real i * resolution \<le> e"
proof -
  have "s + real i * resolution \<le> e" using steps_le_iff[OF assms(1)] assms(2) by blast
  moreover have "0 \<le> real i * resolution" using assms(1) by simp
  ultimately show "s \<le> s + real i * resolution" "s + real i * resolution \<le> e"
        "s \<le> e - real i * resolution" "e - real i * resolution \<le> e" by linarith+
qed

lemma row_left_to_right_sorted:
  assumes "0 < resolution"
  shows "ordered_from lo segments \<Longrightarrow>
         sorted (map fst (row_left_to_right w ex resolution y segments)) \<and>
         (\<forall>p \<in> set (row_left_to_right w ex resolution y segments). lo \<le> fst p)"
proof (induction segments arbitrary: lo)
  case Nil
  then show ?case by (simp add: row_left_to_right_def)
next
  case (Cons seg segments)
  obtain s e where seg: "seg = (s, e)" by (cases seg)
  from Cons.prems have b: "lo \<le> s" "s \<le> e" and rest: "ordered_from e segments"
    by (simp_all add: seg)
  let ?xs = "filter (\<lambda>x. is_valid w ex x y)
               (map (\<lambda>i. s + real i * resolution) [0..<steps_le resolution e s])"
  have split: "map fst (row_left_to_right w ex resolution y (seg # segments)) =
      ?xs @ map fst (row_left_to_right w ex resolution y segments)"
    by (simp add: row_left_to_right_def seg comp_def)
  have xs: "sorted ?xs" by (intro sorted_wrt_filter sorted_steps_up[OF assms])
  have range: "\<forall>x \<in> set ?xs. s \<le> x \<and> x \<le> e" using segment_xs[OF assms] by auto
  from Cons.IH[OF rest] have IH: "sorted (map fst (row_left_to_right w ex resolution y segments))"
    "\<forall>p \<in> set (row_left_to_right w ex resolution y segments). e \<le> fst p" by simp_all
  have "sorted (?xs @ map fst (row_left_to_right w ex resolution y segments))"
    unfolding sorted_append using xs IH range by fastforce
  moreover have "\<forall>x \<in> set (?xs @ map fst (row_left_to_right w ex resolution y segments)). lo \<le> x"
    using range IH(2) b by fastforce
  ultimately show ?case unfolding split[symmetric] by simp
qed

lemma row_right_to_left_sorted:
  assumes "0 < resolution"
  shows "ordered_from lo segments \<Longrightarrow>
         sorted (rev (map fst (row_right_to_left w ex resolution y (rev segments)))) \<and>
         (\<forall>p \<in> set (row_right_to_left w ex resolution y (rev segments)). lo \<le> fst p)"
proof (induction segments arbitrary: lo)
  case Nil
  then show ?case by (simp add: row_right_to_left_def)
next
  case (Cons seg segments)
  obtain s e where seg: "seg = (s, e)" by (cases seg)
  from Cons.prems have b: "lo \<le> s" "s \<le> e" and rest: "ordered_from e segments"
    by (simp_all add: seg)
  let ?xs = "filter (\<lambda>x. is_valid w ex x y)
               (map (\<lambda>i. e - real i * resolution) [0..<steps_le resolution e s])"
  have split: "map fst (row_right_to_left w ex resolution y (rev (seg # segments))) =
      map fst (row_right_to_left w ex resolution y (rev segments)) @ ?xs"
    by (simp add: row_right_to_left_def seg comp_def)
  have "sorted (rev (map (\<lambda>i. e - real i * resolution) [0..<steps_le resolution e s]))"
    by (rule sorted_steps_down[OF assms])
  then have xs: "sorted (rev ?xs)" unfolding rev_filter by (rule sorted_wrt_filter)
  have range: "\<forall>x \<in> set ?xs. s \<le> x \<and> x \<le> e" using segment_xs[OF assms] by auto
  from Cons.IH[OF rest]
  have IH: "sorted (rev (map fst (row_right_to_left w ex resolution y (rev segments))))"
    "\<forall>p \<in> set (row_right_to_left w ex resolution y (rev segments)). e \<le> fst p" by simp_all
  have "sorted (rev ?xs @ rev (map fst (row_right_to_left w ex resolution y (rev segments))))"
    unfolding sorted_append using xs IH range by fastforce
  then have A: "sorted (rev (map fst (row_right_to_left w ex resolution y (rev (seg # segments)))))"
    unfolding split by simp
  have "\<forall>x \<in> set (map fst (row_right_to_left w ex resolution y (rev segments)) @ ?xs). lo \<le> x"
    using range IH(2) b by fastforce
  then have B: "\<forall>x \<in> set (map fst (row_right_to_left w ex resolution y (rev (seg # segments)))). lo \<le> x"
    unfolding split .
  from A B show ?case by simp
qed

subsection \<open>Claim C7\<close>

lemma plan_zigzag_closed:
  assumes "0 < spacing" and "0 < resolution"
  shows "plan_zigzag w obstacles ex spacing clearance resolution =
    Some (concat (map (\<lambda>k.
       if even k
       then row_left_to_right w ex resolution (spacing / 2 + real k * spacing)
              (get_free_segments_in_row w (spacing / 2 + real k * spacing) obstacles clearance)
       else row_right_to_left w ex resolution (spacing / 2 + real k * spacing)
              (rev (get_free_segments_in_row w (spacing / 2 + real k * spacing) obstacles clearance)))
     [0..<steps_lt spacing (wall_height w) (spacing / 2)]))"
proof -
  let ?g = "\<lambda>y (d::int). if d = 1
              then row_left_to_right w ex resolution y
                     (get_free_segments_in_row w y obstacles clearance)
              else row_right_to_left w ex resolution y
                     (rev (get_free_segments_in_row w y obstacles clearance))"
  have row: "zigzag_row w obstacles ex clearance resolution = (\<lambda>y d p. Some (p @ ?g y d))"
    by (intro ext) (rule zigzag_row_closed[OF assms(2)])
  show ?thesis
    unfolding plan_zigzag_def zigzag_rows_closed[OF assms(1)] direction_parity row run_rows_concat
    by (auto simp: comp_def intro!: arg_cong[where f = concat])
qed

text \<open>
  Claim C7, in exact arithmetic. With a positive spacing the row loop runs its body on
  the rows \<open>k = 0, 1, ...\<close> whose coordinate \<open>spacing / 2 + k * spacing\<close> is below the
  wall's height, in this order, with direction \<open>1\<close> when \<open>k\<close> is even and \<open>-1\<close> when
  it is odd, whatever the body does with the points. With a positive resolution too,
  the planner returns the rows' points one row after the other. An even row, the first
  one among them, holds its free segments in their order and of each segment the valid
  points at \<open>seg_start, seg_start + resolution, ...\<close> up to \<open>seg_end\<close>; an odd row
  holds its free segments in reverse order and of each the valid points at
  \<open>seg_end, seg_end - resolution, ...\<close> down to \<open>seg_start\<close>. On a wall whose width is
  not negative and with obstacles whose expanded width is not negative, \<open>x\<close> never
  decreases along an even row and never increases along an odd row.
\<close>

theorem zigzag_rows_alternate:
  assumes "0 < spacing" and "0 < resolution"
  shows "(\<forall>row points. zigzag_rows row (wall_height w) spacing (spacing / 2) 1 points =
            run_rows row
              (map (\<lambda>k. (spacing / 2 + real k * spacing, if even k then 1 else - 1))
                 [0..<steps_lt spacing (wall_height w) (spacing / 2)]) points) \<and>
         plan_zigzag w obstacles ex spacing clearance resolution =
            Some (concat (map (\<lambda>k.
               if even k
               then row_left_to_right w ex resolution (spacing / 2 + real k * spacing)
                      (get_free_segments_in_row w (spacing / 2 + real k * spacing)
                         obstacles clearance)
               else row_right_to_left w ex resolution (spacing / 2 + real k * spacing)
                      (rev (get_free_segments_in_row w (spacing / 2 + real k * spacing)
                         obstacles clearance)))
             [0..<steps_lt spacing (wall_height w) (spacing / 2)])) \<and>
         (\<forall>k. k < steps_lt spacing (wall_height w) (spacing / 2) \<longleftrightarrow>
                spacing / 2 + real k * spacing < wall_height w) \<and>
         (\<forall>y segments p.
            p \<in> set (row_left_to_right w ex resolution y segments) \<or>
            p \<in> set (row_right_to_left w ex resolution y segments) \<longrightarrow>
              snd p = y \<and> is_valid w ex (fst p) y) \<and>
         (0 \<le> wall_width w \<and> (\<forall>ob \<in> set obstacles. 0 \<le> rect_width ob + 2 * clearance) \<longrightarrow>
            (\<forall>y. sorted (map fst (row_left_to_right w ex resolution y
                                  (get_free_segments_in_row w y obstacles clearance))) \<and>
                 sorted (rev (map fst (row_right_to_left w ex resolution y
                                  (rev (get_free_segments_in_row w y obstacles clearance)))))))"
proof -
  have loop: "zigzag_rows row (wall_height w) spacing (spacing / 2) 1 points =
            run_rows row
              (map (\<lambda>k. (spacing / 2 + real k * spacing, if even k then 1 else - 1))
                 [0..<steps_lt spacing (wall_height w) (spacing / 2)]) points" for row points
    using zigzag_rows_closed[OF assms(1), of row "wall_height w" "spacing / 2" 1 points]
    unfolding direction_parity .
  have rows: "k < steps_lt spacing (wall_height w) (spacing / 2) \<longleftrightarrow>
                spacing / 2 + real k * spacing < wall_height w" for k
    by (rule steps_lt_iff[OF assms(1)])
  have pts: "snd p = y \<and> is_valid w ex (fst p) y"
    if "p \<in> set (row_left_to_right w ex resolution y segments) \<or>
        p \<in> set (row_right_to_left w ex resolution y segments)" for y segments p
    using that row_points by blast
  have order: "sorted (map fst (row_left_to_right w ex resolution y
                                  (get_free_segments_in_row w y obstacles clearance))) \<and>
               sorted (rev (map fst (row_right_to_left w ex resolution y
                                  (rev (get_free_segments_in_row w y obstacles clearance)))))"
    if "0 \<le> wall_width w \<and> (\<forall>ob \<in> set obstacles. 0 \<le> rect_width ob + 2 * clearance)" for y
  proof -
    have "ordered_from 0 (get_free_segments_in_row w y obstacles clearance)"
      using that by (intro get_free_segments_ordered) simp_all
    then show ?thesis
      using row_left_to_right_sorted[OF assms(2)] row_right_to_left_sorted[OF assms(2)] by blast
  qed
  from loop plan_zigzag_closed[OF assms] rows pts order show ?thesis by blast
qed

text \<open>
  A wall of four rows with spacing 0.125 and resolution 0.0625. The obstacle grown by
  the clearance spans the width of the wall at the height of the second row, which adds
  no point; the third row is scanned from left to right like the first, the fourth from
  right to left.
\<close>

theorem zigzag_rows_alternate_witness:
  "((0::real) < 0.125 \<and> (0::real) < 0.0625) \<and>
   steps_lt 0.125 (wall_height four_row_wall) (0.125 / 2) = 4 \<and>
   get_free_segments_in_row four_row_wall (0.125 / 2 + real (1::nat) * 0.125) [stripe_obstacle]
     0.0078125 = [] \<and>
   plan_zigzag four_row_wall [stripe_obstacle] (expand_obstacles [stripe_obstacle] 0.0078125)
     0.125 0.0078125 0.0625 =
     Some [(0, 0.0625), (0.0625, 0.0625), (0.125, 0.0625),
           (0, 0.3125), (0.0625, 0.3125), (0.125, 0.3125),
           (0.125, 0.4375), (0.0625, 0.4375), (0, 0.4375)]"
proof -
  have a: "(0::real) < 0.125" "(0::real) < 0.0625" by simp_all
  have n: "steps_lt 0.125 (wall_height four_row_wall) (0.125 / 2) = 4"
    by (simp add: steps_lt_def four_row_wall_def)
  have f: "get_free_segments_in_row four_row_wall (0.125 / 2 + real (1::nat) * 0.125)
      [stripe_obstacle] 0.0078125 = []"
    by (simp add: get_free_segments_in_row_def four_row_wall_def stripe_obstacle_def
        expand_obstacle_def)
  have u: "[0..<4::nat] = [0, 1, 2, 3]" "[0..<3::nat] = [0, 1, 2]" by (simp_all add: eval_nat_numeral)
  note inst = zigzag_rows_alternate[OF a, where w = four_row_wall and obstacles = "[stripe_obstacle]"
      and ex = "expand_obstacles [stripe_obstacle] 0.0078125" and clearance = "0.0078125"]
  let ?rows = "\<lambda>k.
               if even k
               then row_left_to_right four_row_wall (expand_obstacles [stripe_obstacle] 0.0078125)
                      0.0625 (0.125 / 2 + real k * 0.125)
                      (get_free_segments_in_row four_row_wall (0.125 / 2 + real k * 0.125)
                         [stripe_obstacle] 0.0078125)
               else row_right_to_left four_row_wall (expand_obstacles [stripe_obstacle] 0.0078125)
                      0.0625 (0.125 / 2 + real k * 0.125)
                      (rev (get_free_segments_in_row four_row_wall (0.125 / 2 + real k * 0.125)
                         [stripe_obstacle] 0.0078125))"
  from inst have "plan_zigzag four_row_wall [stripe_obstacle]
      (expand_obstacles [stripe_obstacle] 0.0078125) 0.125 0.0078125 0.0625 =
      Some (concat (map ?rows [0..<steps_lt 0.125 (wall_height four_row_wall) (0.125 / 2)]))"
    by blast
  also have "\<dots> = Some [(0, 0.0625), (0.0625, 0.0625), (0.125, 0.0625),
           (0, 0.3125), (0.0625, 0.3125), (0.125, 0.3125),
           (0.125, 0.4375), (0.0625, 0.4375), (0, 0.4375)]"
    unfolding n u(1)
    by (simp add: u(2) row_left_to_right_def row_right_to_left_def
        get_free_segments_in_row_def four_row_wall_def stripe_obstacle_def expand_obstacle_def
        expand_obstacles_def steps_le_def is_valid_def contains_point_def)
  finally have p: "plan_zigzag four_row_wall [stripe_obstacle]
      (expand_obstacles [stripe_obstacle] 0.0078125) 0.125 0.0078125 0.0625 =
     Some [(0, 0.0625), (0.0625, 0.0625), (0.125, 0.0625),
           (0, 0.3125), (0.0625, 0.3125), (0.125, 0.3125),
           (0.125, 0.4375), (0.0625, 0.4375), (0, 0.4375)]" .
  from a n f p show ?thesis by blast
qed

subsection \<open>Claim C1\<close>

lemma thin_valid:
  assumes "0 < s" and "s \<le> 1"
  shows "valid_request (thin_wall s) [thin_obstacle s] (thin_settings s)"
  using assms
  by (simp add: valid_request_def valid_obstacle_def valid_settings_def thin_wall_def
      thin_obstacle_def thin_settings_def)

lemma thin_fits: "\<not> exceeds_wall (thin_wall s) [thin_obstacle s]" if "0 < s"
  using that by (simp add: exceeds_wall_def thin_wall_def thin_obstacle_def)

lemma thin_merge:
  "merge_obstacles (expand_obstacles [thin_obstacle s] c) = [expand_obstacle (thin_obstacle s) c]"
  by (simp add: merge_obstacles_def find_overlapping_def expand_obstacles_map)

lemma thin_rows:
  assumes "0 < s"
  shows "steps_lt s (wall_height (thin_wall s)) (s / 2) = 2"
proof -
  have "(2 * s - s / 2) / s = 3 / 2" using assms by (simp add: field_simps)
  moreover have "\<lceil>(3::real) / 2\<rceil> = 2" by (simp add: ceiling_eq_iff)
  ultimately show ?thesis using assms by (simp add: steps_lt_def thin_wall_def)
qed

lemma thin_free:
  assumes "0 < s" and "y < 0.725 * s \<or> 1.275 * s < y" and "c = s / 4"
  shows "get_free_segments_in_row (thin_wall s) y [thin_obstacle s] c = [(0, 0.1)]"
  using assms
  by (auto simp: get_free_segments_in_row_def thin_wall_def thin_obstacle_def expand_obstacle_def)

lemma thin_is_valid:
  assumes "0 < s" and "y < 0.725 * s \<or> 1.275 * s < y" and "0 \<le> y" and "y \<le> 2 * s"
    and "0 \<le> x" and "x \<le> 0.1" and "c = s / 4"
  shows "is_valid (thin_wall s) [expand_obstacle (thin_obstacle s) c] x y"
  using assms
  by (auto simp: is_valid_def thin_wall_def thin_obstacle_def expand_obstacle_def
      contains_point_def)

lemma thin_steps: "steps_le 0.1 0.1 0 = 2"
  by (simp add: steps_le_def)

lemma thin_generate:
  assumes "0 < s"
  shows "generate (thin_wall s) [thin_obstacle s]
      [expand_obstacle (thin_obstacle s) (s_clearance (thin_settings s))] (thin_settings s) tol =
      Some (thin_points s)"
proof -
  have c: "s_clearance (thin_settings s) = 0.25 * s" by (simp add: thin_settings_def)
  have u: "[0..<2::nat] = [0, 1]" by (simp add: eval_nat_numeral)
  have "plan_zigzag (thin_wall s) [thin_obstacle s]
      [expand_obstacle (thin_obstacle s) (0.25 * s)] s (0.25 * s) 0.1 = Some (thin_points s)"
    unfolding plan_zigzag_closed[OF assms, of "0.1", simplified] thin_rows[OF assms] u
    using assms
    by (simp add: thin_free row_left_to_right_def row_right_to_left_def thin_steps u
        thin_is_valid thin_points_def)
  then show ?thesis by (simp add: generate_def thin_settings_def)
qed

lemma thin_validate:
  assumes "0 < s" and "s < tol"
  shows "validate_path_safety (thin_wall s)
     [expand_obstacle (thin_obstacle s) (s_clearance (thin_settings s))] tol
     (s_resolution (thin_settings s)) (thin_points s) = Inr ()"
proof -
  have c: "s_clearance (thin_settings s) = 0.25 * s" by (simp add: thin_settings_def)
  have v: "validate_points (thin_wall s) [expand_obstacle (thin_obstacle s) (0.25 * s)]
      (thin_points s) = Inr ()"
    using assms(1) by (simp add: thin_points_def thin_is_valid)
  have g: "validate_segments tol (s_resolution (thin_settings s))
      [expand_obstacle (thin_obstacle s) (0.25 * s)] 0 (thin_points s) = Inr ()"
    using assms
    by (simp add: thin_points_def segment_crosses_obstacle_def intersects_horizontal_segment_def
        thin_obstacle_def expand_obstacle_def)
  show ?thesis unfolding validate_path_safety_def c v using g by simp
qed

lemma thin_refused:
  assumes "0 < tol" and "tol \<le> s"
  shows "validate_path_safety (thin_wall s)
     [expand_obstacle (thin_obstacle s) (s_clearance (thin_settings s))] tol
     (s_resolution (thin_settings s)) (thin_points s) =
     Inl (ValueError (Path_segment_crosses_obstacle 1))"
proof -
  have s: "0 < s" using assms by simp
  have c: "s_clearance (thin_settings s) = 0.25 * s" by (simp add: thin_settings_def)
  have v: "validate_points (thin_wall s) [expand_obstacle (thin_obstacle s) (0.25 * s)]
      (thin_points s) = Inr ()"
    using s by (simp add: thin_points_def thin_is_valid)
  have g: "validate_segments tol (s_resolution (thin_settings s))
      [expand_obstacle (thin_obstacle s) (0.25 * s)] 0 (thin_points s) =
      Inl (ValueError (Path_segment_crosses_obstacle 1))"
    using assms s
    by (simp add: thin_points_def segment_crosses_obstacle_def intersects_horizontal_segment_def
        intersects_vertical_segment_def thin_obstacle_def expand_obstacle_def)
  show ?thesis unfolding validate_path_safety_def c v using g by simp
qed

lemma thin_plan:
  assumes "0 < s" and "s \<le> 1" and "s < tol"
  shows "plan (thin_wall s) [thin_obstacle s] (thin_settings s) MAX_POINTS tol =
           Some (Inr (thin_trajectory s))"
proof -
  have l: "length (thin_points s) = 4" "thin_points s \<noteq> []" by (simp_all add: thin_points_def)
  have sp: "s_speed (thin_settings s) = 0.1" by (simp add: thin_settings_def)
  show ?thesis
    unfolding plan_def
    by (simp add: thin_valid[OF assms(1,2)] thin_fits[OF assms(1)] thin_merge
        thin_generate[OF assms(1)] thin_validate[OF assms(1,3)] l sp
        estimate_duration_def thin_trajectory_def Let_def MAX_POINTS_def)
qed

lemma thin_crossing:
  assumes "0 < s"
  shows "contains_point (expand_obstacle (thin_obstacle s) (s_clearance (thin_settings s))) 0.1 s"
  using assms
  by (simp add: contains_point_def expand_obstacle_def thin_obstacle_def thin_settings_def)

text \<open>
  Claim C1. The claim fails for the segments. The segment test takes a segment for
  horizontal when its two points differ in \<open>y\<close> by less than the tolerance, and then
  tests the first point's \<open>y\<close> only. Take a spacing \<open>s\<close> in \<open>(0, 1]\<close>, a wall of
  0.1 by \<open>2 s\<close>, so that it has the two rows \<open>s / 2\<close> and \<open>s / 2 + s\<close>, an obstacle
  of 0.05 by \<open>0.05 s\<close> at \<open>(0.05, 0.975 s)\<close>, a clearance of \<open>0.25 s\<close> and a
  resolution of 0.1: every setting is within its range. With any tolerance above \<open>s\<close>
  the zigzag planner generates the points
  \<open>(0, s / 2), (0.1, s / 2), (0.1, s / 2 + s), (0, s / 2 + s)\<close>, the validation of the
  path accepts them, and the planning call returns them as a trajectory. The segment
  from the second to the third point is vertical, at \<open>x = 0.1\<close>, and the point
  \<open>(0.1, s)\<close> of it lies in the obstacle grown by the clearance, which is the one
  expanded obstacle of the call.
\<close>

theorem short_vertical_segment_crosses_obstacle:
  assumes "0 < s" and "s \<le> 1" and "s < tol"
  shows "valid_request (thin_wall s) [thin_obstacle s] (thin_settings s) \<and>
         merge_obstacles (expand_obstacles [thin_obstacle s] (s_clearance (thin_settings s))) =
           [expand_obstacle (thin_obstacle s) (s_clearance (thin_settings s))] \<and>
         generate (thin_wall s) [thin_obstacle s]
           [expand_obstacle (thin_obstacle s) (s_clearance (thin_settings s))] (thin_settings s) tol =
           Some [(0, s / 2), (0.1, s / 2), (0.1, s / 2 + s), (0, s / 2 + s)] \<and>
         validate_path_safety (thin_wall s)
           [expand_obstacle (thin_obstacle s) (s_clearance (thin_settings s))]
           tol (s_resolution (thin_settings s))
           [(0, s / 2), (0.1, s / 2), (0.1, s / 2 + s), (0, s / 2 + s)] = Inr () \<and>
         plan (thin_wall s) [thin_obstacle s] (thin_settings s) MAX_POINTS tol =
           Some (Inr (thin_trajectory s)) \<and>
         traj_points (thin_trajectory s) =
           [(0, s / 2), (0.1, s / 2), (0.1, s / 2 + s), (0, s / 2 + s)] \<and>
         contains_point (expand_obstacle (thin_obstacle s) (s_clearance (thin_settings s))) 0.1 s \<and>
         s / 2 < s \<and> s < s / 2 + s"
proof -
  have t: "traj_points (thin_trajectory s) =
      [(0, s / 2), (0.1, s / 2), (0.1, s / 2 + s), (0, s / 2 + s)]"
    by (simp add: thin_trajectory_def thin_points_def)
  have q: "thin_points s = [(0, s / 2), (0.1, s / 2), (0.1, s / 2 + s), (0, s / 2 + s)]"
    by (simp add: thin_points_def)
  have b: "s / 2 < s" "s < s / 2 + s" using assms(1) by simp_all
  from thin_valid[OF assms(1,2)] thin_merge thin_generate[OF assms(1), of tol, unfolded q]
    thin_validate[OF assms(1,3), unfolded q] thin_plan[OF assms] t thin_crossing[OF assms(1)] b
  show ?thesis by blast
qed

text \<open>
  With a spacing of 0.0004 and a tolerance of 0.001: a wall of 0.1 by 0.0008, an
  obstacle of 0.05 by 0.00002 at \<open>(0.05, 0.00039)\<close> and a clearance of 0.0001.
\<close>

theorem short_vertical_segment_crosses_obstacle_witness:
  "((0::real) < 0.0004 \<and> (0.0004::real) \<le> 1 \<and> (0.0004::real) < 0.001) \<and>
   thin_wall 0.0004 = \<lparr>wall_width = 0.1, wall_height = 0.0008\<rparr> \<and>
   thin_obstacle 0.0004 =
     \<lparr>rect_x = 0.05, rect_y = 0.00039, rect_width = 0.05, rect_height = 0.00002\<rparr> \<and>
   thin_settings 0.0004 =
     \<lparr>s_pattern = Zigzag, s_spacing = 0.0004, s_speed = 0.1, s_clearance = 0.0001,
      s_resolution = 0.1\<rparr> \<and>
   valid_request (thin_wall 0.0004) [thin_obstacle 0.0004] (thin_settings 0.0004) \<and>
   plan (thin_wall 0.0004) [thin_obstacle 0.0004] (thin_settings 0.0004) MAX_POINTS 0.001 =
     Some (Inr (thin_trajectory 0.0004)) \<and>
   traj_points (thin_trajectory 0.0004) =
     [(0, 0.0002), (0.1, 0.0002), (0.1, 0.0006), (0, 0.0006)] \<and>
   contains_point (expand_obstacle (thin_obstacle 0.0004) 0.0001) 0.1 0.0004"
  using short_vertical_segment_crosses_obstacle[of "0.0004" "0.001"]
  by (simp add: thin_wall_def thin_obstacle_def thin_settings_def)

text \<open>
  So every positive tolerance admits an input within the ranges on which the call returns
  a trajectory with a segment through an expanded obstacle.
\<close>

lemma every_tolerance_admits_a_crossing:
  assumes "0 < tol"
  shows "\<exists>w obstacle st t y.
           valid_request w [obstacle] st \<and>
           plan w [obstacle] st MAX_POINTS tol = Some (Inr t) \<and>
           fst (traj_points t ! 1) = fst (traj_points t ! 2) \<and>
           snd (traj_points t ! 1) < y \<and> y < snd (traj_points t ! 2) \<and>
           contains_point (expand_obstacle obstacle (s_clearance st)) (fst (traj_points t ! 1)) y"
proof -
  define s where "s = min tol 1 / 2"
  have s: "0 < s" "s \<le> 1" "s < tol" using assms by (simp_all add: s_def min_def)
  have t: "traj_points (thin_trajectory s) ! 1 = (0.1, s / 2)"
    "traj_points (thin_trajectory s) ! 2 = (0.1, s / 2 + s)"
    by (simp_all add: thin_trajectory_def thin_points_def numeral_2_eq_2)
  have "valid_request (thin_wall s) [thin_obstacle s] (thin_settings s) \<and>
        plan (thin_wall s) [thin_obstacle s] (thin_settings s) MAX_POINTS tol =
          Some (Inr (thin_trajectory s)) \<and>
        fst (traj_points (thin_trajectory s) ! 1) = fst (traj_points (thin_trajectory s) ! 2) \<and>
        snd (traj_points (thin_trajectory s) ! 1) < s \<and>
        s < snd (traj_points (thin_trajectory s) ! 2) \<and>
        contains_point (expand_obstacle (thin_obstacle s) (s_clearance (thin_settings s)))
          (fst (traj_points (thin_trajectory s) ! 1)) s"
    unfolding t using thin_valid[OF s(1,2)] thin_plan[OF s] thin_crossing[OF s(1)] s(1) by simp
  then show ?thesis by blast
qed

text \<open>
  With a positive tolerance of at most the spacing the same segment is tested as a
  vertical one, and the call refuses the path.
\<close>

lemma long_vertical_segment_is_refused:
  assumes "0 < tol" and "tol \<le> s" and "s \<le> 1"
  shows "plan (thin_wall s) [thin_obstacle s] (thin_settings s) MAX_POINTS tol =
     Some (Inl (ValueError (Path_segment_crosses_obstacle 1)))"
proof -
  have s: "0 < s" using assms by simp
  show ?thesis
    unfolding plan_def
    by (simp add: thin_valid[OF s assms(3)] thin_fits[OF s] thin_merge thin_generate[OF s]
        thin_refused[OF assms(1,2)] Let_def)
qed

subsection \<open>The row coordinate in binary64\<close>

lemma binary64_small:
  assumes "1 / 2 ^ m \<le> x" and "x < 2 / 2 ^ m"
  shows "binary64 x = of_int (round_half_even (x * 2 ^ (m + 52))) / 2 ^ (m + 52)"
proof -
  have "0 < 1 / (2::real) ^ m" by simp
  then have pos: "0 < x" using assms(1) by linarith
  have p: "2 powr of_int (- int k) = 1 / (2::real) ^ k" for k
    by (simp add: powr_minus powr_realpow inverse_eq_divide)
  have q: "2 powr of_int (- int m + 1) = 2 / (2::real) ^ m"
    unfolding of_int_add of_int_1 powr_add p by simp
  have "(\<lfloor>log 2 x\<rfloor> = - int m) = (2 powr of_int (- int m) \<le> x \<and> x < 2 powr of_int (- int m + 1))"
    using pos by (intro floor_log_eq_powr_iff) simp_all
  then have "\<lfloor>log 2 x\<rfloor> = - int m"
    unfolding p q using assms by blast
  then have e: "\<lfloor>log 2 \<bar>x\<bar>\<rfloor> - 52 = - int (m + 52)" using pos by simp
  show ?thesis using pos unfolding binary64_def Let_def e p by simp
qed

lemma binary64_spacing: "binary64 0.2 = 7205759403792794 / 2 ^ 55"
  by (subst binary64_small[of 3]) (simp_all add: round_half_even_def Let_def)

lemma binary64_row_0: "binary64 (7205759403792794 / 2 ^ 55 / 2) = 7205759403792794 / 2 ^ 56"
  by (subst binary64_small[of 4]) (simp_all add: round_half_even_def Let_def)

lemma binary64_row_1:
  "binary64 (7205759403792794 / 2 ^ 56 + 7205759403792794 / 2 ^ 55) = 5404319552844596 / 2 ^ 54"
  by (subst binary64_small[of 2]) (simp_all add: round_half_even_def Let_def)

lemma binary64_row_2:
  "binary64 (5404319552844596 / 2 ^ 54 + 7205759403792794 / 2 ^ 55) = 4503599627370496 / 2 ^ 53"
  by (subst binary64_small[of 1]) (simp_all add: round_half_even_def Let_def)

lemma binary64_row_3:
  "binary64 (4503599627370496 / 2 ^ 53 + 7205759403792794 / 2 ^ 55) = 6305039478318694 / 2 ^ 53"
  by (subst binary64_small[of 1]) (simp_all add: round_half_even_def Let_def)

lemma binary64_product: "binary64 (3 * (7205759403792794 / 2 ^ 55)) = 5404319552844596 / 2 ^ 53"
  by (subst binary64_small[of 1]) (simp_all add: round_half_even_def Let_def)

lemma binary64_sum:
  "binary64 (7205759403792794 / 2 ^ 56 + 5404319552844596 / 2 ^ 53) = 6305039478318695 / 2 ^ 53"
  by (subst binary64_small[of 1]) (simp_all add: round_half_even_def Let_def)

text \<open>
  Claim C7 as written, in binary64. With the spacing 0.2, which is
  \<open>7205759403792794 / 2^55\<close> as a binary64 value, the loop's second row is at
  \<open>5404319552844596 / 2^54\<close>, printed 0.30000000000000004, which is not the sum of half
  the spacing and the spacing. Its fourth row is at \<open>6305039478318694 / 2^53\<close>, printed
  0.7, where the expression \<^verbatim>\<open>spacing / 2 + 3 * spacing\<close> evaluates to
  \<open>6305039478318695 / 2^53\<close>, printed 0.7000000000000001.
\<close>

theorem row_coordinate_is_rounded:
  "binary64 0.2 = 7205759403792794 / 2 ^ 55 \<and>
   row_y_binary64 (binary64 0.2) 0 = binary64 0.2 / 2 \<and>
   row_y_binary64 (binary64 0.2) 1 = 5404319552844596 / 2 ^ 54 \<and>
   row_y_binary64 (binary64 0.2) 1 \<noteq> binary64 0.2 / 2 + 1 * binary64 0.2 \<and>
   row_y_binary64 (binary64 0.2) 3 = 6305039478318694 / 2 ^ 53 \<and>
   binary64 (binary64 (binary64 0.2 / 2) + binary64 (3 * binary64 0.2)) =
     6305039478318695 / 2 ^ 53 \<and>
   row_y_binary64 (binary64 0.2) 3 \<noteq>
     binary64 (binary64 (binary64 0.2 / 2) + binary64 (3 * binary64 0.2))"
proof -
  have r0: "row_y_binary64 (binary64 0.2) 0 = 7205759403792794 / 2 ^ 56"
    by (simp only: row_y_binary64.simps binary64_spacing binary64_row_0)
  have r1: "row_y_binary64 (binary64 0.2) (Suc 0) = 5404319552844596 / 2 ^ 54"
    by (simp only: row_y_binary64.simps binary64_spacing binary64_row_0 binary64_row_1)
  have r2: "row_y_binary64 (binary64 0.2) (Suc (Suc 0)) = 4503599627370496 / 2 ^ 53"
    by (simp only: row_y_binary64.simps binary64_spacing binary64_row_0 binary64_row_1
        binary64_row_2)
  have r3: "row_y_binary64 (binary64 0.2) (Suc (Suc (Suc 0))) = 6305039478318694 / 2 ^ 53"
    by (simp only: row_y_binary64.simps binary64_spacing binary64_row_0 binary64_row_1
        binary64_row_2 binary64_row_3)
  have f: "binary64 (binary64 (binary64 0.2 / 2) + binary64 (3 * binary64 0.2)) =
     6305039478318695 / 2 ^ 53"
    by (simp only: binary64_spacing binary64_row_0 binary64_product binary64_sum)
  have s: "binary64 0.2 = 7205759403792794 / 2 ^ 55" by (rule binary64_spacing)
  have c0: "row_y_binary64 (binary64 0.2) 0 = binary64 0.2 / 2"
    unfolding r0 unfolding s by simp
  have c1: "row_y_binary64 (binary64 0.2) 1 = 5404319552844596 / 2 ^ 54"
    unfolding One_nat_def by (rule r1)
  have n1: "row_y_binary64 (binary64 0.2) 1 \<noteq> binary64 0.2 / 2 + 1 * binary64 0.2"
    unfolding c1 unfolding s by simp
  have three: "(3::nat) = Suc (Suc (Suc 0))" by simp
  have c3: "row_y_binary64 (binary64 0.2) 3 = 6305039478318694 / 2 ^ 53"
    unfolding three by (rule r3)
  have n3: "row_y_binary64 (binary64 0.2) 3 \<noteq>
     binary64 (binary64 (binary64 0.2 / 2) + binary64 (3 * binary64 0.2))"
    unfolding c3 f by simp
  from s c0 c1 n1 c3 f n3 show ?thesis by blast
qed

subsection \<open>Scenario A with an obstacle between two rows\<close>

















subsection \<open>The call returns\<close>


subsection \<open>Claim C2\<close>




subsection \<open>Claim C3\<close>

lemma validate_points_error:
  "validate_points w ex points = Inl e \<Longrightarrow> \<exists>p. e = ValueError (Path_point_inside_obstacle p)"
  by (induction points) (auto split: if_splits)

lemma validate_segments_error:
  "validate_segments tol res ex k points = Inl e \<Longrightarrow>
   \<exists>i. e = ValueError (Path_segment_crosses_obstacle i)"
  by (induction tol res ex k points rule: validate_segments.induct) (auto split: if_splits)

lemma validate_path_safety_error:
  "validate_path_safety w ex tol res points = Inl e \<Longrightarrow>
   e \<noteq> ValueError No_valid_coverage_path"
  using validate_points_error validate_segments_error
  by (fastforce simp: validate_path_safety_def split: sum.splits)

text \<open>
  Claim C3, as amended. When the input passes the checks, no obstacle is as wide or as
  high as the wall, and every point of the wall lies in some obstacle grown by the
  clearance, the call returns the error of no valid coverage path. An input that passes
  the checks with an obstacle as wide or as high as the wall is refused before planning,
  with the error of an obstacle exceeding the wall; an input that does not pass the
  checks is refused with the configuration error. The error of no valid coverage path
  is returned only when the planner generated no point, and a trajectory that is
  returned is never empty.
\<close>

theorem no_free_area_is_an_error:
  "(valid_request w obstacles st \<and> \<not> exceeds_wall w obstacles \<and>
    (\<forall>x y. 0 \<le> x \<and> x \<le> wall_width w \<and> 0 \<le> y \<and> y \<le> wall_height w \<longrightarrow>
       list_ex (\<lambda>obstacle. contains_point (expand_obstacle obstacle (s_clearance st)) x y)
         obstacles) \<longrightarrow>
      plan w obstacles st max_points tol = Some (Inl (ValueError No_valid_coverage_path))) \<and>
   (valid_request w obstacles st \<and> exceeds_wall w obstacles \<longrightarrow>
      plan w obstacles st max_points tol = Some (Inl (ValueError Obstacle_exceeds_wall_dimensions))) \<and>
   (\<not> valid_request w obstacles st \<longrightarrow>
      plan w obstacles st max_points tol = Some (Inl ConfigurationError)) \<and>
   (plan w obstacles st max_points tol = Some (Inl (ValueError No_valid_coverage_path)) \<longrightarrow>
      generate w obstacles (merge_obstacles (expand_obstacles obstacles (s_clearance st))) st tol
        = Some []) \<and>
   (\<forall>t. plan w obstacles st max_points tol = Some (Inr t) \<longrightarrow> traj_points t \<noteq> [])"
proof (intro conjI impI allI)
  let ?es = "expand_obstacles obstacles (s_clearance st)"
  let ?ms = "merge_obstacles ?es"
  assume a: "valid_request w obstacles st \<and> \<not> exceeds_wall w obstacles \<and>
    (\<forall>x y. 0 \<le> x \<and> x \<le> wall_width w \<and> 0 \<le> y \<and> y \<le> wall_height w \<longrightarrow>
       list_ex (\<lambda>obstacle. contains_point (expand_obstacle obstacle (s_clearance st)) x y)
         obstacles)"
  then have pos: "0 < s_spacing st" "0 < s_resolution st"
    by (simp_all add: valid_request_def valid_settings_def)
  have "\<not> is_valid w ?ms x y" for x y
  proof
    assume v: "is_valid w ?ms x y"
    then have "0 \<le> x \<and> x \<le> wall_width w \<and> 0 \<le> y \<and> y \<le> wall_height w"
      by (simp add: is_valid_iff)
    with a obtain ob where ob: "ob \<in> set obstacles"
      "contains_point (expand_obstacle ob (s_clearance st)) x y"
      unfolding list_ex_iff by blast
    then have "expand_obstacle ob (s_clearance st) \<in> set ?es"
      by (simp add: expand_obstacles_map)
    from expanded_covered[OF this] obtain m where "m \<in> set ?ms"
      "rect_subset (expand_obstacle ob (s_clearance st)) m" by blast
    then have "\<exists>m \<in> set ?ms. contains_point m x y" using ob(2) contains_point_mono by blast
    then show False using v by (simp add: is_valid_iff)
  qed
  then have "generate w obstacles ?ms st tol = Some []"
    using pos by (intro generate_nothing_valid) simp_all
  then show "plan w obstacles st max_points tol = Some (Inl (ValueError No_valid_coverage_path))"
    using a by (simp add: plan_def Let_def validate_path_safety_def)
next
  assume "valid_request w obstacles st \<and> exceeds_wall w obstacles"
  then show "plan w obstacles st max_points tol = Some (Inl (ValueError Obstacle_exceeds_wall_dimensions))"
    by (simp add: plan_def)
next
  assume "\<not> valid_request w obstacles st"
  then show "plan w obstacles st max_points tol = Some (Inl ConfigurationError)"
    by (simp add: plan_def)
next
  assume "plan w obstacles st max_points tol = Some (Inl (ValueError No_valid_coverage_path))"
  then show "generate w obstacles (merge_obstacles (expand_obstacles obstacles (s_clearance st))) st tol
        = Some []"
    unfolding plan_def Let_def
    by (auto split: if_splits sum.splits simp: bind_eq_Some_conv estimate_duration_def
        dest: validate_path_safety_error)
next
  fix t assume "plan w obstacles st max_points tol = Some (Inr t)"
  from plan_accepted[OF this] show "traj_points t \<noteq> []" by auto
qed

text \<open>
  An obstacle smaller than the unit wall whose expansion is the whole wall; the obstacle
  of scenario C; the obstacle of scenario B; and the worked input, which is accepted.
\<close>

theorem no_free_area_is_an_error_witness:
  "valid_request unit_wall [blocked_obstacle] blocked_settings \<and>
   plan unit_wall [blocked_obstacle] blocked_settings 10 0.001 =
     Some (Inl (ValueError No_valid_coverage_path)) \<and>
   expand_obstacle blocked_obstacle (s_clearance blocked_settings) =
     \<lparr>rect_x = 0, rect_y = 0, rect_width = 1, rect_height = 1\<rparr> \<and>
   generate unit_wall [blocked_obstacle]
     (merge_obstacles (expand_obstacles [blocked_obstacle] (s_clearance blocked_settings)))
     blocked_settings 0.001 = Some [] \<and>
   plan scenario_wall [full_obstacle] scenario_settings 10 0.001 =
     Some (Inl (ValueError Obstacle_exceeds_wall_dimensions)) \<and>
   plan scenario_wall [outside_obstacle] scenario_settings 10 0.001 =
     Some (Inl ConfigurationError) \<and>
   plan example_wall [example_obstacle] example_settings 10 0.001 = Some (Inr example_trajectory) \<and>
   traj_points example_trajectory \<noteq> []"
proof -
  have e: "expand_obstacle blocked_obstacle (s_clearance blocked_settings) =
     \<lparr>rect_x = 0, rect_y = 0, rect_width = 1, rect_height = 1\<rparr>"
    by (simp add: expand_obstacle_def blocked_obstacle_def blocked_settings_def)
  have v: "valid_request unit_wall [blocked_obstacle] blocked_settings"
    by (simp add: valid_request_def valid_obstacle_def valid_settings_def unit_wall_def
        blocked_obstacle_def blocked_settings_def)
  have h: "valid_request unit_wall [blocked_obstacle] blocked_settings \<and>
    \<not> exceeds_wall unit_wall [blocked_obstacle] \<and>
    (\<forall>x y. 0 \<le> x \<and> x \<le> wall_width unit_wall \<and> 0 \<le> y \<and> y \<le> wall_height unit_wall \<longrightarrow>
       list_ex (\<lambda>obstacle. contains_point (expand_obstacle obstacle (s_clearance blocked_settings)) x y)
         [blocked_obstacle])"
    using v by (simp add: list_ex_iff e contains_point_def exceeds_wall_def)
       (simp add: unit_wall_def blocked_obstacle_def)
  have a: "plan unit_wall [blocked_obstacle] blocked_settings 10 0.001 =
     Some (Inl (ValueError No_valid_coverage_path))"
    using no_free_area_is_an_error[of unit_wall "[blocked_obstacle]" blocked_settings 10 "0.001"] h
    by blast
  have g: "generate unit_wall [blocked_obstacle]
     (merge_obstacles (expand_obstacles [blocked_obstacle] (s_clearance blocked_settings)))
     blocked_settings 0.001 = Some []"
    using no_free_area_is_an_error[of unit_wall "[blocked_obstacle]" blocked_settings 10 "0.001"] a
    by blast
  have f: "valid_request scenario_wall [full_obstacle] scenario_settings \<and>
      exceeds_wall scenario_wall [full_obstacle]"
    by (simp add: valid_request_def valid_obstacle_def valid_settings_def exceeds_wall_def
        scenario_wall_def full_obstacle_def scenario_settings_def)
  have b: "plan scenario_wall [full_obstacle] scenario_settings 10 0.001 =
     Some (Inl (ValueError Obstacle_exceeds_wall_dimensions))"
    using no_free_area_is_an_error[of scenario_wall "[full_obstacle]" scenario_settings 10 "0.001"] f
    by blast
  have o: "\<not> valid_request scenario_wall [outside_obstacle] scenario_settings"
    by (simp add: valid_request_def valid_obstacle_def scenario_wall_def outside_obstacle_def)
  have s: "plan scenario_wall [outside_obstacle] scenario_settings 10 0.001 =
     Some (Inl ConfigurationError)"
    using no_free_area_is_an_error[of scenario_wall "[outside_obstacle]" scenario_settings 10 "0.001"] o
    by blast
  have p: "plan example_wall [example_obstacle] example_settings 10 0.001 = Some (Inr example_trajectory)"
    by (rule example_plan) simp
  have c: "traj_points example_trajectory \<noteq> []"
    using no_free_area_is_an_error[of example_wall "[example_obstacle]" example_settings 10 "0.001"] p
    by blast
  from v a e g b s p c show ?thesis by blast
qed

text \<open>
  Scenario C of the claim as written: the obstacle that is the whole wall lies within
  the wall, so it passes the checks of the input, and it is refused for its dimensions,
  not for a missing path.
\<close>

theorem covered_wall_is_rejected_earlier:
  "plan scenario_wall [full_obstacle] scenario_settings MAX_POINTS 0.001 =
     Some (Inl (ValueError Obstacle_exceeds_wall_dimensions)) \<and>
   plan scenario_wall [full_obstacle] scenario_settings MAX_POINTS 0.001 \<noteq>
     Some (Inl (ValueError No_valid_coverage_path))"
  by (simp add: plan_def valid_request_def valid_obstacle_def valid_settings_def exceeds_wall_def
      scenario_wall_def full_obstacle_def scenario_settings_def)

subsection \<open>Claim C5\<close>

text \<open>
  Claim C5, as amended. The expanded obstacle is the obstacle grown by the clearance on
  all sides, \<open>(x - c, y - c, w + 2c, h + 2c)\<close>, for a single obstacle and for each one of
  a list; it is not clamped, and it contains the same points of the wall as the clamped
  rectangle does.
\<close>

theorem expansion_within_wall:
  "expand_obstacle obstacle c =
     \<lparr>rect_x = rect_x obstacle - c, rect_y = rect_y obstacle - c,
      rect_width = rect_width obstacle + 2 * c, rect_height = rect_height obstacle + 2 * c\<rparr> \<and>
   expand_obstacles obstacles c = map (\<lambda>obs. expand_obstacle obs c) obstacles \<and>
   (0 \<le> px \<and> px \<le> wall_width w \<and> 0 \<le> py \<and> py \<le> wall_height w \<longrightarrow>
      (contains_point (expand_obstacle obstacle c) px py \<longleftrightarrow>
       contains_point (clamped_expansion w obstacle c) px py))"
  by (auto simp: expand_obstacle_def expand_obstacles_def clamped_expansion_def
      contains_point_def Let_def)

text \<open>A point of the wall's lower edge, within the clearance of the corner obstacle.\<close>

theorem expansion_within_wall_witness:
  "((0::real) \<le> 1.01 \<and> 1.01 \<le> wall_width scenario_wall \<and>
    (0::real) \<le> 0 \<and> 0 \<le> wall_height scenario_wall) \<and>
   contains_point (expand_obstacle left_obstacle 0.02) 1.01 0 \<and>
   contains_point (clamped_expansion scenario_wall left_obstacle 0.02) 1.01 0"
proof -
  have h: "(0::real) \<le> 1.01 \<and> 1.01 \<le> wall_width scenario_wall \<and>
    (0::real) \<le> 0 \<and> 0 \<le> wall_height scenario_wall"
    by (simp add: scenario_wall_def)
  have c: "contains_point (expand_obstacle left_obstacle 0.02) 1.01 0"
    by (simp add: contains_point_def expand_obstacle_def left_obstacle_def)
  from expansion_within_wall[of left_obstacle "0.02" "[]" "1.01" scenario_wall 0] h c
  have "contains_point (clamped_expansion scenario_wall left_obstacle 0.02) 1.01 0" by blast
  with h c show ?thesis by blast
qed

text \<open>
  The claim as written fails: an obstacle in the corner of the wall, grown by \<open>0.02\<close>,
  starts left of the wall, and differs from the clamped rectangle.
\<close>

theorem expansion_is_not_clamped:
  "rect_x (expand_obstacle left_obstacle 0.02) = - 0.02 \<and>
   rect_x (expand_obstacle left_obstacle 0.02) < 0 \<and>
   expand_obstacles [left_obstacle] 0.02 = [expand_obstacle left_obstacle 0.02] \<and>
   clamped_expansion scenario_wall left_obstacle 0.02 =
     \<lparr>rect_x = 0, rect_y = 0, rect_width = 1.02, rect_height = 1.02\<rparr> \<and>
   expand_obstacle left_obstacle 0.02 \<noteq> clamped_expansion scenario_wall left_obstacle 0.02"
  by (simp add: expand_obstacle_def expand_obstacles_def clamped_expansion_def left_obstacle_def
      scenario_wall_def)

subsection \<open>Claim C6\<close>

text \<open>
  Claim C6 on three obstacles, the third overlapping the first two: the single pass of
  \<^const>\<open>merge_obstacles\<close> merges the third with the first and leaves the second, which
  the merged rectangle overlaps. The same happens when the obstacles are expanded first.
\<close>

theorem merge_leaves_overlap:
  "merge_obstacles [left_obstacle, right_obstacle, bridge_obstacle] =
     [right_obstacle, \<lparr>rect_x = 0, rect_y = 0, rect_width = 3.5, rect_height = 1\<rparr>] \<and>
   overlaps right_obstacle \<lparr>rect_x = 0, rect_y = 0, rect_width = 3.5, rect_height = 1\<rparr> \<and>
   merge_obstacles (expand_obstacles [left_obstacle, right_obstacle, bridge_obstacle] 0.02) =
     [\<lparr>rect_x = 2.98, rect_y = - 0.02, rect_width = 1.04, rect_height = 1.04\<rparr>,
      \<lparr>rect_x = - 0.02, rect_y = - 0.02, rect_width = 3.54, rect_height = 1.04\<rparr>] \<and>
   overlaps \<lparr>rect_x = 2.98, rect_y = - 0.02, rect_width = 1.04, rect_height = 1.04\<rparr>
            \<lparr>rect_x = - 0.02, rect_y = - 0.02, rect_width = 3.54, rect_height = 1.04\<rparr>"
  by (simp add: merge_obstacles_def find_overlapping_def overlaps_def union_rect_def Let_def
      expand_obstacles_def left_obstacle_def right_obstacle_def bridge_obstacle_def)

subsection \<open>Claim C8\<close>

lemma fold_add_sum: "fold (\<lambda>i total. total + f i) [0..<n] a = a + (\<Sum>i<n. f i)"
  by (induction n) (simp_all add: add.assoc)

lemma calculate_path_length_sum:
  "calculate_path_length points =
     (\<Sum>i<length points - 1. euclidean_distance (points ! i) (points ! (i + 1)))"
  by (simp add: calculate_path_length_def fold_add_sum)

text \<open>
  Claim C8. In a trajectory that is returned, the length is the sum of the Euclidean
  distances between consecutive points, every pair included; the speed is not zero and
  the duration is the length divided by it; the point count is the number of points.
\<close>

theorem trajectory_metrics:
  assumes "plan w obstacles st max_points tol = Some (Inr t)"
  shows "length_m t = (\<Sum>i<length (traj_points t) - 1.
                         euclidean_distance (traj_points t ! i) (traj_points t ! (i + 1))) \<and>
         s_speed st \<noteq> 0 \<and>
         duration_s t = length_m t / s_speed st \<and>
         point_count t = length (traj_points t)"
proof -
  from plan_accepted[OF assms] obtain points d where
    d: "estimate_duration (calculate_path_length points) (s_speed st) = Inr d"
    and t: "t = \<lparr>traj_points = points, length_m = calculate_path_length points,
                duration_s = d, point_count = length points\<rparr>" by blast
  from d have "s_speed st \<noteq> 0" "d = calculate_path_length points / s_speed st"
    by (auto simp: estimate_duration_def split: if_splits)
  then show ?thesis using t by (simp add: calculate_path_length_sum)
qed

lemma horizontal_distance: "euclidean_distance (a, y) (b, y) = \<bar>b - a\<bar>"
  by (simp add: euclidean_distance_def)

lemma example_distance:
  "euclidean_distance (0.140625, 0.125) (0.203125, 0.125) = 0.0625"
  "euclidean_distance (0.203125, 0.125) (0.265625, 0.125) = 0.0625"
  by (simp_all add: horizontal_distance)

text \<open>The worked input: three points \<open>0.0625\<close> apart, at speed \<open>0.125\<close>.\<close>

theorem trajectory_metrics_witness:
  "plan example_wall [example_obstacle] example_settings 10 0.001 = Some (Inr example_trajectory) \<and>
   traj_points example_trajectory = [(0.140625, 0.125), (0.203125, 0.125), (0.265625, 0.125)] \<and>
   length_m example_trajectory = 0.125 \<and>
   duration_s example_trajectory = 1 \<and>
   point_count example_trajectory = 3"
proof -
  have p: "plan example_wall [example_obstacle] example_settings 10 0.001 = Some (Inr example_trajectory)"
    by (rule example_plan) simp
  have pts: "traj_points example_trajectory = [(0.140625, 0.125), (0.203125, 0.125), (0.265625, 0.125)]"
    by (simp add: example_trajectory_def example_points_def)
  have two: "{..<2::nat} = {0, 1}" by auto
  have three: "(\<Sum>i<length [a, b, c] - 1. euclidean_distance ([a, b, c] ! i) ([a, b, c] ! (i + 1))) =
      euclidean_distance a b + euclidean_distance b c" for a b c
    by (simp add: two)
  from trajectory_metrics[OF p]
  have l0: "length_m example_trajectory = (\<Sum>i<length (traj_points example_trajectory) - 1.
        euclidean_distance (traj_points example_trajectory ! i) (traj_points example_trajectory ! (i + 1)))"
    and d: "duration_s example_trajectory = length_m example_trajectory / s_speed example_settings"
    and c: "point_count example_trajectory = length (traj_points example_trajectory)"
    by blast+
  from l0 have l: "length_m example_trajectory = 0.125"
    unfolding pts three example_distance by simp
  from c have c: "point_count example_trajectory = 3" unfolding pts by simp
  from d l have "duration_s example_trajectory = 1" by (simp add: example_settings_def)
  with p pts l c show ?thesis by blast
qed

subsection \<open>Claim C9\<close>

text \<open>
  Claim C9, as amended. On scenario A the zigzag planner generates 25 rows of 501 points
  each, row \<open>k\<close> at \<open>y = 0.1 + 0.2 k\<close> over the x-values \<open>0, 0.01, ..., 5\<close>, 12525
  points in all. The planning call returns them as a trajectory when the maximum is at
  least 12525 and refuses them as too large when it is smaller.
\<close>

theorem scenario_A_rows:
  "plan_zigzag scenario_wall [] (expand_obstacles [] (s_clearance scenario_settings))
      (s_spacing scenario_settings) (s_clearance scenario_settings) (s_resolution scenario_settings)
     = Some (concat (map scenario_row [0..<25])) \<and>
   scenario_row k =
     (if even k then map (\<lambda>i. (real i * 0.01, 0.1 + real k * 0.2)) [0..<501]
      else rev (map (\<lambda>i. (real i * 0.01, 0.1 + real k * 0.2)) [0..<501])) \<and>
   length (scenario_row k) = 501 \<and>
   length (concat (map scenario_row [0..<25])) = 12525 \<and>
   plan scenario_wall [] scenario_settings max_points tol =
     (if max_points < 12525 then Some (Inl (ValueError (Trajectory_too_large 12525)))
      else Some (Inr \<lparr>traj_points = concat (map scenario_row [0..<25]),
                      length_m = calculate_path_length (concat (map scenario_row [0..<25])),
                      duration_s = calculate_path_length (concat (map scenario_row [0..<25])) / 0.1,
                      point_count = 12525\<rparr>))"
  using scenario_generated[of "0.02"] scenario_length scenario_plan[of max_points tol]
  by (simp add: scenario_settings_def expand_obstacles_def scenario_row_length
      scenario_points_def[symmetric])
     (simp add: scenario_row_def)

text \<open>With a maximum of 50000 the trajectory is returned; the ends of the first, second and last row.\<close>

theorem scenario_A_rows_witness:
  "plan scenario_wall [] scenario_settings 50000 0.001 =
     Some (Inr \<lparr>traj_points = concat (map scenario_row [0..<25]),
                length_m = calculate_path_length (concat (map scenario_row [0..<25])),
                duration_s = calculate_path_length (concat (map scenario_row [0..<25])) / 0.1,
                point_count = 12525\<rparr>) \<and>
   scenario_row 0 ! 0 = (0, 0.1) \<and> scenario_row 0 ! 500 = (5, 0.1) \<and>
   scenario_row 24 ! 0 = (0, 4.9) \<and> scenario_row 24 ! 500 = (5, 4.9) \<and>
   scenario_row 1 ! 0 = (5, 0.3) \<and> scenario_row 1 ! 500 = (0, 0.3)"
  using scenario_A_rows[of 0 50000 "0.001"] scenario_A_rows[of 24 50000 "0.001"]
    scenario_A_rows[of 1 50000 "0.001"]
  by (simp add: rev_nth)

text \<open>
  The claim as written fails with the design document's \<^const>\<open>MAX_POINTS\<close>: the call
  does not return a trajectory.
\<close>

theorem scenario_A_exceeds_MAX_POINTS:
  "plan scenario_wall [] scenario_settings MAX_POINTS 0.001 =
     Some (Inl (ValueError (Trajectory_too_large 12525)))"
  by (simp add: scenario_plan MAX_POINTS_def)

subsection \<open>Claim C10\<close>

text \<open>
  Claim C10. The plan request of either handler carries the selected pattern, spacing
  \<open>0.05\<close> for the spiral and \<open>0.2\<close> otherwise, speed \<open>0.1\<close>, clearance \<open>0.02\<close> and
  resolution \<open>0.01\<close>, whatever the rest of the state and the submitted form hold. The
  regenerate button issues a request exactly in the states in which it is rendered:
  no generation is running, a path is shown and a wall is active; the request is for
  that wall.
\<close>

theorem frontend_settings_fixed:
  "plan_settings (createWallAndPath state wallData newWall_id) =
     \<lparr>s_pattern = selectedPattern state,
      s_spacing = (if selectedPattern state = Spiral then 0.05 else 0.2),
      s_speed = 0.1, s_clearance = 0.02, s_resolution = 0.01\<rparr> \<and>
   plan_wall_id (createWallAndPath state wallData newWall_id) = newWall_id \<and>
   (\<forall>request. regenerate state = Some request \<longrightarrow>
      plan_settings request =
        \<lparr>s_pattern = selectedPattern state,
         s_spacing = (if selectedPattern state = Spiral then 0.05 else 0.2),
         s_speed = 0.1, s_clearance = 0.02, s_resolution = 0.01\<rparr> \<and>
      activeWall state = Some (plan_wall_id request)) \<and>
   ((\<exists>request. regenerate state = Some request) \<longleftrightarrow>
      \<not> isGenerating state \<and> activePath state \<noteq> None \<and> activeWall state \<noteq> None)"
  by (auto simp: createWallAndPath_def regenerate_def Let_def split: option.splits)

text \<open>
  The first submission with the default pattern, and a regeneration of the path of
  wall 1 after the spiral was selected.
\<close>

theorem frontend_settings_fixed_witness:
  "plan_settings (createWallAndPath initial_state default_form 1) =
     \<lparr>s_pattern = Zigzag, s_spacing = 0.2, s_speed = 0.1, s_clearance = 0.02,
      s_resolution = 0.01\<rparr> \<and>
   regenerate (initial_state\<lparr>activeWall := Some 1, activePath := Some 1, selectedPattern := Spiral\<rparr>) =
     Some \<lparr>plan_wall_id = 1,
           plan_settings = \<lparr>s_pattern = Spiral, s_spacing = 0.05, s_speed = 0.1,
                             s_clearance = 0.02, s_resolution = 0.01\<rparr>\<rparr> \<and>
   plan_settings \<lparr>plan_wall_id = 1,
           plan_settings = \<lparr>s_pattern = Spiral, s_spacing = 0.05, s_speed = 0.1,
                             s_clearance = 0.02, s_resolution = 0.01\<rparr>\<rparr> =
     \<lparr>s_pattern = Spiral, s_spacing = 0.05, s_speed = 0.1, s_clearance = 0.02,
      s_resolution = 0.01\<rparr> \<and>
   regenerate initial_state = None"
proof -
  let ?state = "initial_state\<lparr>activeWall := Some 1, activePath := Some 1, selectedPattern := Spiral\<rparr>"
  let ?request = "\<lparr>plan_wall_id = 1,
           plan_settings = \<lparr>s_pattern = Spiral, s_spacing = 0.05, s_speed = 0.1,
                             s_clearance = 0.02, s_resolution = 0.01\<rparr>\<rparr>"
  have r: "regenerate ?state = Some ?request"
    by (simp add: regenerate_def initial_state_def)
  have s: "plan_settings ?request =
     \<lparr>s_pattern = Spiral, s_spacing = 0.05, s_speed = 0.1, s_clearance = 0.02,
      s_resolution = 0.01\<rparr>"
    using frontend_settings_fixed[of ?state default_form 1] r
    by (simp add: initial_state_def)
  have c: "plan_settings (createWallAndPath initial_state default_form 1) =
     \<lparr>s_pattern = Zigzag, s_spacing = 0.2, s_speed = 0.1, s_clearance = 0.02,
      s_resolution = 0.01\<rparr>"
    using frontend_settings_fixed[of initial_state default_form 1]
    by (simp add: initial_state_def)
  have n: "regenerate initial_state = None"
    using frontend_settings_fixed[of initial_state default_form 1]
    by (simp add: initial_state_def)
  from c r s n show ?thesis by blast
qed

end
